theory Spec2Isabelle
  imports Complex_Main
begin

section \<open>Input-arbitration policies of metadrive/policy/manual_control_policy.py\<close>

text \<open>
  A shallow embedding of \<^verbatim>\<open>get_controller\<close>, \<^verbatim>\<open>ManualControlPolicy\<close>,
  \<^verbatim>\<open>TakeoverPolicy\<close>, \<^verbatim>\<open>TakeoverPolicyWithoutBrake\<close> and \<^verbatim>\<open>PHIPolicy\<close>.

  Python floats are idealised as \<^typ>\<open>real\<close>: the properties below are about comparisons
  with thresholds and about clipping, not about rounding. The concrete inputs used below
  give the same comparisons in binary floating point.

  A Python exception is a value of \<open>error\<close>; a method that mutates \<^verbatim>\<open>self\<close> returns
  the state it leaves behind together with its result, also when it raises.
\<close>

subsection \<open>Values, errors, devices\<close>

datatype error =
    ValueError | AssertionError | AttributeError | IndexError | KeyError | TypeError
  | UnboundLocalError | DeviceError

type_synonym action = "real list"

text \<open>
  The per-tick external input \<^verbatim>\<open>engine.external_actions[agent_id]\<close>: a bare vector, or
  a dict with the keys \<^verbatim>\<open>"action"\<close> and \<^verbatim>\<open>"extra"\<close>.
\<close>

datatype ext_action = Bare action | DictForm action bool

definition JOYSTICK_DEADZONE :: real where
  "JOYSTICK_DEADZONE = 0.025"

text \<open>
  The three controller classes imported from \<^verbatim>\<open>metadrive.engine.core.manual_controller\<close>.
  The keyboard controller is built with the argument \<^verbatim>\<open>pygame_control\<close>.
\<close>

datatype controller = KeyboardController bool | SteeringWheelController | XboxController

text \<open>
  What the device shows during one tick. The device classes are not part of the modelled
  file, so their readings are inputs: the list returned by \<^verbatim>\<open>process_input\<close>, the
  attributes the policies read after it, and how many times \<^verbatim>\<open>process_others\<close> calls
  the callback it is given.
\<close>

record device_input =
  raw_action :: action
  kb_takeover :: bool
  left_shift_paddle :: bool
  right_shift_paddle :: bool
  button_a :: bool
  button_b :: bool
  button_x :: bool
  button_y :: bool
  others_callbacks :: nat

subsection \<open>get\_controller\<close>

text \<open>
  \<^verbatim>\<open>str.lower\<close> on the ASCII letters; the other characters are left as they are.
\<close>

definition lower_char :: "char \<Rightarrow> char" where
  "lower_char c =
     (let n = (of_char c :: nat) in if 65 \<le> n \<and> n \<le> 90 then char_of (n + 32) else c)"

definition lower :: "string \<Rightarrow> string" where
  "lower s = map lower_char s"

text \<open>
  Whether a controller class can be instantiated depends on the hardware and the installed
  drivers: \<open>hw c = Some e\<close> says that the constructor of \<open>c\<close> raises \<open>e\<close>.
\<close>

type_synonym hardware = "controller \<Rightarrow> error option"

definition construct :: "hardware \<Rightarrow> controller \<Rightarrow> error + controller option" where
  "construct hw c = (case hw c of Some e \<Rightarrow> Inl e | None \<Rightarrow> Inr (Some c))"

text \<open>
  The result type has room for the \<^verbatim>\<open>None\<close> that the docstring promises on error
  (\<open>Inr None\<close>); the body has no path that produces it.
\<close>

definition get_controller :: "hardware \<Rightarrow> string \<Rightarrow> bool \<Rightarrow> error + controller option" where
  "get_controller hw controller_name pygame_control =
     (let controller_name = lower controller_name in
      if controller_name = ''keyboard'' then construct hw (KeyboardController pygame_control)
      else if controller_name \<in> set [''xboxController'', ''xboxcontroller'', ''xbox'', ''gamepad'',
                                      ''joystick'', ''steering_wheel'', ''wheel''] then
        (if controller_name \<in> set [''steering_wheel'', ''wheel'']
         then construct hw SteeringWheelController
         else construct hw XboxController)
      else Inl ValueError)"

subsection \<open>The engine and the policy object\<close>

type_synonym agent_id = string

text \<open>Objects are compared by identity (\<^verbatim>\<open>is\<close>); an object is its address.\<close>

type_synonym obj = nat

text \<open>
  What the policies read from \<^verbatim>\<open>self.engine\<close>: four keys of the global config, the
  tracked agent (\<open>None\<close> is Python's \<^verbatim>\<open>None\<close>), the attribute
  \<^verbatim>\<open>expert_takeover\<close> of each agent object, the agent manager's lookup, the main camera
  (\<open>None\<close> when there is none, otherwise the answer of \<^verbatim>\<open>is_bird_view_camera()\<close>)
  and the external actions of this tick.
\<close>

record engine =
  cfg_manual_control :: bool
  cfg_use_render :: bool
  cfg_controller :: string
  cfg_action_check :: bool
  current_track_agent :: "obj option"
  expert_takeover :: "obj \<Rightarrow> bool"
  get_agent :: "agent_id \<Rightarrow> obj"
  main_camera :: "bool option"
  external_actions :: "agent_id \<rightharpoonup> ext_action"

text \<open>
  The attributes of a policy object. \<open>controller = None\<close> stands both for the attribute
  holding \<^verbatim>\<open>None\<close> and for the attribute never having been set: reading a member of
  it raises \<^verbatim>\<open>AttributeError\<close> in either case. \<open>info_action\<close> and
  \<open>info_manual_control\<close> are the two keys of the dict \<^verbatim>\<open>action_info\<close>, \<open>None\<close> while
  the key is absent.

  \<open>discrete_action\<close>, \<open>convert_to_continuous_action\<close> and \<open>input_space\<close> belong to
  \<^verbatim>\<open>EnvInputPolicy\<close>, which is not part of the modelled file; they are parameters here.
  The input space is a set of bare action values, given by its membership test.
\<close>

record policy =
  controller :: "controller option"
  enable_expert :: bool
  takeover :: bool
  current_takeover_last_steps :: int
  takeover_steps :: int
  info_action :: "action option"
  info_manual_control :: "bool option"
  discrete_action :: bool
  convert_to_continuous_action :: "action \<Rightarrow> action"
  input_space :: "action \<Rightarrow> bool"

subsection \<open>Post-processing and EnvInputPolicy.act\<close>

text \<open>
  Modelled from the spec: \<^verbatim>\<open>metadrive.utils.math.clip\<close> is imported, not defined, in
  the modelled file. ``Clips each channel independently into [-1, 1]'': the value is
  raised to the lower bound, then lowered to the upper one.
\<close>

definition clip :: "real \<Rightarrow> real \<Rightarrow> real \<Rightarrow> real" where
  "clip a low high = min (max a low) high"

text \<open>
  Modelled from the spec: the \<^verbatim>\<open>contains\<close> test of the space returned by
  \<^verbatim>\<open>get_input_space()\<close>. The declared space is the space of bare actions (the override
  that would have made it a dict space is commented out at the end of \<^verbatim>\<open>PHIPolicy\<close>),
  so a dict is never a member.
\<close>

fun space_contains :: "(action \<Rightarrow> bool) \<Rightarrow> ext_action \<Rightarrow> bool" where
  "space_contains sp (Bare a) = sp a"
| "space_contains sp (DictForm a e) = False"

text \<open>
  Modelled from the spec: a box space, ``bounded to [-1,1]'' in the spec's scenario:
  vectors of \<open>n\<close> components, each between \<open>lo\<close> and \<open>hi\<close>.
\<close>

definition Box :: "real \<Rightarrow> real \<Rightarrow> nat \<Rightarrow> action \<Rightarrow> bool" where
  "Box lo hi n a = (length a = n \<and> list_all (\<lambda>x. lo \<le> x \<and> x \<le> hi) a)"

text \<open>
  Lines 206 to 216 of \<^verbatim>\<open>PHIPolicy.act\<close>, from the action check to the write of
  \<^verbatim>\<open>action_info["action"]\<close>: \<open>ext\<close> is the external input that is checked and
  \<open>action\<close> the action that is processed and returned.
\<close>

definition finish_act :: "engine \<Rightarrow> policy \<Rightarrow> ext_action \<Rightarrow> action \<Rightarrow> (error + action) \<times> policy" where
  "finish_act eng pol ext action =
     (if cfg_action_check eng \<and> \<not> space_contains (input_space pol) ext then (Inl AssertionError, pol)
      else
        let to_process = (if discrete_action pol then convert_to_continuous_action pol action else action);
            action = map (\<lambda>x. clip x (- 1) 1) to_process
        in (Inr action, pol\<lparr>info_action := Some action\<rparr>))"

text \<open>
  Modelled from the spec: \<^verbatim>\<open>EnvInputPolicy.act\<close>, the superclass method that is not
  part of the modelled file. The spec's post-processor validates the pre-clip external
  action when validation is enabled, converts a discrete choice, and clips each channel;
  the source says of lines 206 to 216 that they are ``the same as EnvInputPolicy'', where
  the action processed is the external input itself. A dict cannot be processed as a
  vector: indexing it with 0 raises \<^verbatim>\<open>KeyError\<close>, converting it raises
  \<^verbatim>\<open>TypeError\<close>.
\<close>

definition EnvInputPolicy_act :: "engine \<Rightarrow> policy \<Rightarrow> agent_id \<Rightarrow> (error + action) \<times> policy" where
  "EnvInputPolicy_act eng pol agent_id =
     (case external_actions eng agent_id of
        None \<Rightarrow> (Inl KeyError, pol)
      | Some (Bare a) \<Rightarrow> finish_act eng pol (Bare a) a
      | Some (DictForm a e) \<Rightarrow>
          (if cfg_action_check eng then (Inl AssertionError, pol)
           else if discrete_action pol then (Inl TypeError, pol)
           else (Inl KeyError, pol)))"

subsection \<open>TakeoverPolicy and TakeoverPolicyWithoutBrake\<close>

fun isinstance_KeyboardController :: "controller \<Rightarrow> bool" where
  "isinstance_KeyboardController (KeyboardController pygame_control) = True"
| "isinstance_KeyboardController SteeringWheelController = False"
| "isinstance_KeyboardController XboxController = False"

text \<open>
  \<^verbatim>\<open>TakeoverPolicy.act\<close>. The condition of line 116 is evaluated left to right: the
  camera is asked only when the first two conjuncts hold, and asking a camera that is
  \<^verbatim>\<open>None\<close> raises. \<^verbatim>\<open>sum\<close> adds the components of the device's list.
\<close>

definition TakeoverPolicy_act ::
    "engine \<Rightarrow> device_input \<Rightarrow> policy \<Rightarrow> agent_id \<Rightarrow> (error + action) \<times> policy" where
  "TakeoverPolicy_act eng dev pol agent_id =
     (case EnvInputPolicy_act eng pol agent_id of
        (Inl e, pol) \<Rightarrow> (Inl e, pol)
      | (Inr agent_action, pol) \<Rightarrow>
          if cfg_manual_control eng \<and> Some (get_agent eng agent_id) = current_track_agent eng then
            (case main_camera eng of
               None \<Rightarrow> (Inl AttributeError, pol)
             | Some bird_view \<Rightarrow>
                 if \<not> bird_view then
                   (case controller pol of
                      None \<Rightarrow> (Inl AttributeError, pol)
                    | Some c \<Rightarrow>
                        let expert_action = raw_action dev in
                        if c = SteeringWheelController
                           \<and> (left_shift_paddle dev \<or> right_shift_paddle dev)
                        then (Inr expert_action, pol\<lparr>takeover := True\<rparr>)
                        else if isinstance_KeyboardController c
                           \<and> (kb_takeover dev \<or> \<bar>sum_list expert_action\<bar> > 0.01)
                        then (Inr expert_action, pol\<lparr>takeover := True\<rparr>)
                        else if c = XboxController
                           \<and> (button_a dev \<or> button_b dev \<or> button_x dev \<or> button_y dev
                                \<or> \<bar>sum_list expert_action\<bar> > JOYSTICK_DEADZONE)
                        then (Inr expert_action, pol\<lparr>takeover := True\<rparr>)
                        else (Inr agent_action, pol\<lparr>takeover := False\<rparr>))
                 else (Inr agent_action, pol\<lparr>takeover := False\<rparr>))
          else (Inr agent_action, pol\<lparr>takeover := False\<rparr>))"

text \<open>
  \<^verbatim>\<open>TakeoverPolicyWithoutBrake.act\<close>: \<^verbatim>\<open>action[1]\<close> is read only when
  \<^verbatim>\<open>self.takeover\<close> holds, and raises on a list shorter than two.
\<close>

definition TakeoverPolicyWithoutBrake_act ::
    "engine \<Rightarrow> device_input \<Rightarrow> policy \<Rightarrow> agent_id \<Rightarrow> (error + action) \<times> policy" where
  "TakeoverPolicyWithoutBrake_act eng dev pol agent_id =
     (case TakeoverPolicy_act eng dev pol agent_id of
        (Inl e, pol) \<Rightarrow> (Inl e, pol)
      | (Inr action, pol) \<Rightarrow>
          if takeover pol then
            (if length action < 2 then (Inl IndexError, pol)
             else if action ! 1 < 0 then (Inr (action[1 := 0]), pol)
             else (Inr action, pol))
          else (Inr action, pol))"

subsection \<open>PHIPolicy\<close>

text \<open>
  Lines 180 to 182 of \<^verbatim>\<open>PHIPolicy.act\<close>: the countdown expires.
\<close>

definition PHI_expire :: "policy \<Rightarrow> policy" where
  "PHI_expire pol =
     (if current_takeover_last_steps pol \<ge> takeover_steps pol
      then pol\<lparr>takeover := False, current_takeover_last_steps := 0\<rparr>
      else pol)"

text \<open>
  Lines 184 to 193: outside a takeover, the external input gives the action and the flag,
  and the random draw may set the flag. \<open>rand\<close> is the value that
  \<^verbatim>\<open>np.random.rand()\<close> draws when it is called. The local variable \<^verbatim>\<open>action\<close> is
  bound here or at line 202; \<open>None\<close> is the unbound variable.
\<close>

definition PHI_trigger :: "ext_action \<Rightarrow> real \<Rightarrow> policy \<Rightarrow> action option \<times> policy" where
  "PHI_trigger external_action rand pol =
     (if \<not> takeover pol then
        let (action, pol) =
              (case external_action of
                 DictForm a extra \<Rightarrow> (a, pol\<lparr>takeover := extra\<rparr>)
               | Bare a \<Rightarrow> (a, pol\<lparr>takeover := False\<rparr>))
        in (Some action, if rand < 0.1 then pol\<lparr>takeover := True\<rparr> else pol)
      else (None, pol))"

text \<open>
  \<^verbatim>\<open>PHIPolicy.act\<close>. The counter is incremented before the action check, so a tick
  that fails the check has counted.
\<close>

definition PHIPolicy_act ::
    "engine \<Rightarrow> device_input \<Rightarrow> real \<Rightarrow> policy \<Rightarrow> agent_id \<Rightarrow> (error + action) \<times> policy" where
  "PHIPolicy_act eng dev rand pol agent_id =
     (case external_actions eng agent_id of
        None \<Rightarrow> (Inl KeyError, pol)
      | Some external_action \<Rightarrow>
          let pol = PHI_expire pol;
              (action, pol) = PHI_trigger external_action rand pol
          in
            if takeover pol then
              (case controller pol of
                 None \<Rightarrow> (Inl AttributeError, pol)
               | Some c \<Rightarrow>
                   let expert_action = raw_action dev in
                   if length expert_action < 2 then (Inl IndexError, pol)
                   else
                     let expert_action = (if expert_action ! 1 < 0 then expert_action[1 := 0]
                                          else expert_action);
                         pol = pol\<lparr>current_takeover_last_steps := current_takeover_last_steps pol + 1\<rparr>
                     in finish_act eng pol external_action expert_action)
            else
              (case action of
                 None \<Rightarrow> (Inl UnboundLocalError, pol)
               | Some action \<Rightarrow> finish_act eng pol external_action action))"

text \<open>
  \<^verbatim>\<open>TakeoverPolicy.__init__\<close>, inherited by the two subclasses, as far as the
  controller is concerned: the attribute is set only when manual control and rendering
  are both on; \<open>Inr None\<close> is the object without the attribute.
\<close>

definition TakeoverPolicy_init :: "engine \<Rightarrow> hardware \<Rightarrow> error + controller option" where
  "TakeoverPolicy_init eng hw =
     (if cfg_manual_control eng \<and> cfg_use_render eng
      then get_controller hw (cfg_controller eng) False
      else Inr None)"

text \<open>
  The state of a \<^verbatim>\<open>PHIPolicy\<close> after \<^verbatim>\<open>__init__\<close>: \<^verbatim>\<open>takeover\<close> is set to
  \<^verbatim>\<open>False\<close> by \<^verbatim>\<open>TakeoverPolicy.__init__\<close>, the counter and the number of steps
  are the class attributes 0 and 10, \<^verbatim>\<open>action_info\<close> is empty.
\<close>

definition PHIPolicy_init ::
    "controller option \<Rightarrow> bool \<Rightarrow> (action \<Rightarrow> action) \<Rightarrow> (action \<Rightarrow> bool) \<Rightarrow> policy" where
  "PHIPolicy_init c discrete conv sp =
     \<lparr>controller = c, enable_expert = True, takeover = False,
      current_takeover_last_steps = 0, takeover_steps = 10,
      info_action = None, info_manual_control = None,
      discrete_action = discrete, convert_to_continuous_action = conv, input_space = sp\<rparr>"

subsection \<open>ManualControlPolicy\<close>

text \<open>
  \<^verbatim>\<open>toggle_takeover\<close> flips the attribute of the tracked agent, if there is one.
\<close>

definition toggle_takeover :: "engine \<Rightarrow> engine" where
  "toggle_takeover eng =
     (case current_track_agent eng of
        None \<Rightarrow> eng
      | Some a \<Rightarrow> eng\<lparr>expert_takeover := (expert_takeover eng)(a := \<not> expert_takeover eng a)\<rparr>)"

text \<open>
  Lines 84 to 94 of \<^verbatim>\<open>ManualControlPolicy.act\<close>: who has authority, and the write of
  \<^verbatim>\<open>action_info\<close>.
\<close>

definition ManualControlPolicy_decide ::
    "engine \<Rightarrow> device_input \<Rightarrow> policy \<Rightarrow> agent_id \<Rightarrow> (error + action) \<times> policy \<times> engine" where
  "ManualControlPolicy_decide eng dev pol agent_id =
     (let is_track_vehicle = (Some (get_agent eng agent_id) = current_track_agent eng);
          not_in_native_bev = (main_camera eng = None \<or> main_camera eng = Some False)
      in if cfg_manual_control eng \<and> is_track_vehicle \<and> not_in_native_bev then
           let action = raw_action dev
           in (Inr action, pol\<lparr>info_manual_control := Some True, info_action := Some action\<rparr>, eng)
         else
           (case EnvInputPolicy_act eng pol agent_id of
              (Inl e, pol) \<Rightarrow> (Inl e, pol, eng)
            | (Inr action, pol) \<Rightarrow>
                (Inr action, pol\<lparr>info_manual_control := Some False, info_action := Some action\<rparr>, eng)))"

text \<open>
  \<^verbatim>\<open>ManualControlPolicy.act\<close>. \<open>expert\<close> is what the call \<^verbatim>\<open>expert(...)\<close> of the
  imported expert does this tick: it returns an action or raises. Only
  \<^verbatim>\<open>ValueError\<close> and \<^verbatim>\<open>AssertionError\<close> are caught. The method changes the engine
  (through \<^verbatim>\<open>toggle_takeover\<close>), so the engine is returned too.
\<close>

definition ManualControlPolicy_act ::
    "engine \<Rightarrow> device_input \<Rightarrow> error + action \<Rightarrow> policy \<Rightarrow> agent_id
       \<Rightarrow> (error + action) \<times> policy \<times> engine" where
  "ManualControlPolicy_act eng dev expert pol agent_id =
     (case controller pol of
        None \<Rightarrow> (Inl AttributeError, pol, eng)
      | Some c \<Rightarrow>
          let eng = (toggle_takeover ^^ others_callbacks dev) eng in
          (case current_track_agent eng of
             None \<Rightarrow> (Inl AttributeError, pol, eng)
           | Some a \<Rightarrow>
               if expert_takeover eng a \<and> enable_expert pol then
                 (case expert of
                    Inr action \<Rightarrow> (Inr action, pol, eng)
                  | Inl e \<Rightarrow>
                      if e = ValueError \<or> e = AssertionError
                      then ManualControlPolicy_decide (toggle_takeover eng) dev pol agent_id
                      else (Inl e, pol, eng))
               else ManualControlPolicy_decide eng dev pol agent_id))"

text \<open>
  The two constructors, as far as the controller is concerned. \<open>accept_t\<close> records whether
  the key \<^verbatim>\<open>"t"\<close> was bound to \<^verbatim>\<open>toggle_takeover\<close>, \<open>warned\<close> whether the warning
  of line 67 was logged.
\<close>

record init_result =
  new_controller :: "controller option"
  accept_t :: bool
  warned :: bool

definition ManualControlPolicy_init :: "engine \<Rightarrow> hardware \<Rightarrow> error + init_result" where
  "ManualControlPolicy_init eng hw =
     (let accept = (cfg_manual_control eng \<and> cfg_use_render eng);
          pygame_control = (if cfg_manual_control eng \<and> cfg_use_render eng then False
                            else if cfg_manual_control eng then True
                            else False)
      in if cfg_manual_control eng then
           (case get_controller hw (cfg_controller eng) pygame_control of
              Inl e \<Rightarrow> Inl e
            | Inr None \<Rightarrow>
                (case construct hw (KeyboardController pygame_control) of
                   Inl e \<Rightarrow> Inl e
                 | Inr c \<Rightarrow> Inr \<lparr>new_controller = c, accept_t = accept, warned = True\<rparr>)
            | Inr (Some c) \<Rightarrow> Inr \<lparr>new_controller = Some c, accept_t = accept, warned = False\<rparr>)
         else Inr \<lparr>new_controller = None, accept_t = accept, warned = False\<rparr>)"

subsection \<open>Notions used to state the properties\<close>

text \<open>Every component of an action lies between -1 and 1.\<close>

definition in_range :: "action \<Rightarrow> bool" where
  "in_range a = list_all (\<lambda>x. - 1 \<le> x \<and> x \<le> 1) a"

text \<open>The vector and the flag that an external input carries.\<close>

fun payload :: "ext_action \<Rightarrow> action" where
  "payload (Bare a) = a"
| "payload (DictForm a e) = a"

fun extra_flag :: "ext_action \<Rightarrow> bool" where
  "extra_flag (Bare a) = False"
| "extra_flag (DictForm a e) = e"

text \<open>
  The three conditions of line 86 under which \<^verbatim>\<open>ManualControlPolicy.act\<close> gives
  authority to the device.
\<close>

definition authority :: "engine \<Rightarrow> agent_id \<Rightarrow> bool" where
  "authority eng agent_id =
     (cfg_manual_control eng \<and> Some (get_agent eng agent_id) = current_track_agent eng
      \<and> main_camera eng \<noteq> Some True)"

text \<open>The tracked agent exists and its \<^verbatim>\<open>expert_takeover\<close> is set.\<close>

definition expert_engaged :: "engine \<Rightarrow> bool" where
  "expert_engaged eng =
     (case current_track_agent eng of None \<Rightarrow> False | Some a \<Rightarrow> expert_takeover eng a)"

text \<open>
  Consecutive calls of \<^verbatim>\<open>PHIPolicy.act\<close> on one policy object. A tick brings the
  engine as it is during the call, the device's readings and the random draw; the policy
  keeps the state the previous call left.
\<close>

record tick =
  tick_engine :: engine
  tick_device :: device_input
  tick_rand :: real

definition PHI_step :: "agent_id \<Rightarrow> policy \<Rightarrow> tick \<Rightarrow> policy" where
  "PHI_step agent_id pol t =
     snd (PHIPolicy_act (tick_engine t) (tick_device t) (tick_rand t) pol agent_id)"

definition PHI_run :: "agent_id \<Rightarrow> policy \<Rightarrow> tick list \<Rightarrow> policy" where
  "PHI_run agent_id pol ts = foldl (PHI_step agent_id) pol ts"

text \<open>
  The policy as lines 180 to 193 of \<^verbatim>\<open>PHIPolicy.act\<close> leave it, before the device is
  read.
\<close>

definition PHI_pre :: "ext_action \<Rightarrow> real \<Rightarrow> policy \<Rightarrow> policy" where
  "PHI_pre ext rand pol = snd (PHI_trigger ext rand (PHI_expire pol))"

text \<open>
  A tick on which the call can reach the counter: the agent has an external input and the
  device returns a list of at least two components.
\<close>

definition tick_ok :: "agent_id \<Rightarrow> tick \<Rightarrow> bool" where
  "tick_ok agent_id t =
     (external_actions (tick_engine t) agent_id \<noteq> None
      \<and> 2 \<le> length (raw_action (tick_device t)))"

subsection \<open>Concrete inputs\<close>

text \<open>
  An engine with manual control and rendering on, the action check on, agent
  \<open>''agent0''\<close> tracked, the camera not in bird's-eye view, and the external input
  \<open>[0.25, -0.5]\<close> for the agent.
\<close>

definition eng0 :: engine where
  "eng0 = \<lparr>cfg_manual_control = True, cfg_use_render = True, cfg_controller = ''keyboard'',
           cfg_action_check = True, current_track_agent = Some 1,
           expert_takeover = (\<lambda>a. False),
           get_agent = (\<lambda>i. if i = ''agent0'' then 1 else 2),
           main_camera = Some False,
           external_actions = [''agent0'' \<mapsto> Bare [1/4, - 1/2]]\<rparr>"

text \<open>
  A freshly constructed policy with controller \<open>c\<close>, continuous actions and the input
  space \<open>Box (-1) 1 2\<close>.
\<close>

definition pol0 :: "controller \<Rightarrow> policy" where
  "pol0 c = PHIPolicy_init (Some c) False (\<lambda>a. a) (Box (- 1) 1 2)"

text \<open>A device at rest: no deflection, nothing pressed.\<close>

definition dev0 :: device_input where
  "dev0 = \<lparr>raw_action = [0, 0], kb_takeover = False, left_shift_paddle = False,
           right_shift_paddle = False, button_a = False, button_b = False, button_x = False,
           button_y = False, others_callbacks = 0\<rparr>"

text \<open>A tick with the engine \<open>eng0\<close>, the device at rest and a draw of 0.5.\<close>

definition tick0 :: tick where
  "tick0 = \<lparr>tick_engine = eng0, tick_device = dev0, tick_rand = 1/2\<rparr>"

text \<open>
  Two consecutive calls of \<^verbatim>\<open>ManualControlPolicy.act\<close> on a fresh policy. During the
  first the device has authority and gives \<open>[0.5, 0.25]\<close>. Before the second the camera
  is switched to bird's-eye view and the operator presses the toggle key once, which
  \<^verbatim>\<open>process_others\<close> reports; the expert answers \<open>[0, 0.5]\<close>.
\<close>

definition manual_tick1 :: "(error + action) \<times> policy \<times> engine" where
  "manual_tick1 =
     ManualControlPolicy_act eng0 (dev0\<lparr>raw_action := [1/2, 1/4]\<rparr>) (Inr [0, 0])
       (pol0 (KeyboardController False)) ''agent0''"

definition manual_tick2 :: "(error + action) \<times> policy \<times> engine" where
  "manual_tick2 =
     ManualControlPolicy_act ((snd (snd manual_tick1))\<lparr>main_camera := Some True\<rparr>)
       (dev0\<lparr>others_callbacks := 1\<rparr>) (Inr [0, 1/2]) (fst (snd manual_tick1)) ''agent0''"

text \<open>A machine on which only the keyboard controller can be instantiated.\<close>

definition hw_no_joystick :: hardware where
  "hw_no_joystick c = (if isinstance_KeyboardController c then None else Some DeviceError)"

text \<open>A machine on which every controller can be instantiated.\<close>

definition hw_all :: hardware where
  "hw_all c = None"

section \<open>Auxiliary facts\<close>

subsection \<open>Lower case\<close>

lemma lower_char_not_upper:
  "\<not> (65 \<le> (of_char (lower_char c) :: nat) \<and> (of_char (lower_char c) :: nat) \<le> 90)"
  by (auto simp add: lower_char_def Let_def)

lemma lower_no_C: "CHR ''C'' \<notin> set (lower s)"
proof
  assume "CHR ''C'' \<in> set (lower s)"
  then obtain c where "lower_char c = CHR ''C''"
    by (auto simp add: lower_def)
  with lower_char_not_upper [of c] show False
    by simp
qed

text \<open>
  The first entry of the list at line 29 has a capital letter, so the lower-cased name
  never equals it.
\<close>

lemma lower_not_xboxController: "lower s \<noteq> ''xboxController''"
proof
  assume "lower s = ''xboxController''"
  then have "CHR ''C'' \<in> set (lower s)" by simp
  with lower_no_C show False by blast
qed

lemma get_controller_not_None: "get_controller hw s pg \<noteq> Inr None"
  by (simp add: get_controller_def construct_def Let_def split: option.splits)

subsection \<open>Clipping and the common tail of act\<close>

lemma clip_bounds: "- 1 \<le> clip x (- 1) 1 \<and> clip x (- 1) 1 \<le> 1"
  by (simp add: clip_def)

lemma clip_id: "- 1 \<le> x \<Longrightarrow> x \<le> 1 \<Longrightarrow> clip x (- 1) 1 = x"
  by (simp add: clip_def)

lemma in_range_map_clip: "in_range (map (\<lambda>x. clip x (- 1) 1) a)"
  by (simp add: in_range_def list_all_iff clip_bounds)

lemma finish_act_cases:
  "finish_act eng pol ext a = (r, p') \<Longrightarrow>
     (r = Inl AssertionError \<and> p' = pol \<and> cfg_action_check eng
        \<and> \<not> space_contains (input_space pol) ext)
   \<or> (\<exists>b. r = Inr b \<and> p' = pol\<lparr>info_action := Some b\<rparr>
          \<and> b = map (\<lambda>x. clip x (- 1) 1)
                  (if discrete_action pol then convert_to_continuous_action pol a else a)
          \<and> \<not> (cfg_action_check eng \<and> \<not> space_contains (input_space pol) ext))"
  by (auto simp add: finish_act_def Let_def split: if_splits)

lemma finish_act_state:
  "finish_act eng pol ext a = (r, p') \<Longrightarrow>
     takeover p' = takeover pol
     \<and> current_takeover_last_steps p' = current_takeover_last_steps pol
     \<and> takeover_steps p' = takeover_steps pol \<and> controller p' = controller pol
     \<and> info_manual_control p' = info_manual_control pol"
  by (auto dest!: finish_act_cases)

lemma finish_act_rejects:
  "cfg_action_check eng \<Longrightarrow> \<not> space_contains (input_space pol) ext \<Longrightarrow>
     finish_act eng pol ext a = (Inl AssertionError, pol)"
  by (simp add: finish_act_def)

lemma EnvInputPolicy_act_cases:
  "EnvInputPolicy_act eng pol aid = (r, p') \<Longrightarrow>
     (\<exists>e. r = Inl e \<and> p' = pol)
   \<or> (\<exists>b. r = Inr b \<and> p' = pol\<lparr>info_action := Some b\<rparr> \<and> in_range b)"
  by (auto simp add: EnvInputPolicy_act_def in_range_map_clip
      split: option.splits ext_action.splits if_splits dest!: finish_act_cases)

subsection \<open>The phases of PHIPolicy.act\<close>

lemma PHI_trigger_cases:
  "PHI_trigger ext rand p = (act, p') \<Longrightarrow>
     (takeover p \<and> act = None \<and> p' = p)
   \<or> (\<not> takeover p \<and> act = Some (payload ext)
        \<and> p' = p\<lparr>takeover := (extra_flag ext \<or> rand < 0.1)\<rparr>)"
  by (cases ext) (auto simp add: PHI_trigger_def split: if_splits)

lemma PHI_pre_eq:
  "PHI_pre ext rand pol =
     (if takeover (PHI_expire pol) then PHI_expire pol
      else (PHI_expire pol)\<lparr>takeover := (extra_flag ext \<or> rand < 0.1)\<rparr>)"
  by (cases "PHI_trigger ext rand (PHI_expire pol)")
    (auto simp add: PHI_pre_def dest!: PHI_trigger_cases)

lemma PHI_pre_fields:
  "controller (PHI_pre ext rand p) = controller p"
  "takeover_steps (PHI_pre ext rand p) = takeover_steps p"
  "discrete_action (PHI_pre ext rand p) = discrete_action p"
  "convert_to_continuous_action (PHI_pre ext rand p) = convert_to_continuous_action p"
  "input_space (PHI_pre ext rand p) = input_space p"
  "info_manual_control (PHI_pre ext rand p) = info_manual_control p"
  "current_takeover_last_steps (PHI_pre ext rand p) = current_takeover_last_steps (PHI_expire p)"
  by (simp_all add: PHI_pre_eq PHI_expire_def)

lemma PHIPolicy_act_no_input:
  "external_actions eng aid = None \<Longrightarrow> PHIPolicy_act eng dev rand pol aid = (Inl KeyError, pol)"
  by (simp add: PHIPolicy_act_def)

lemma PHIPolicy_act_autonomous:
  assumes "external_actions eng aid = Some ext" "\<not> takeover (PHI_pre ext rand pol)"
  shows "PHIPolicy_act eng dev rand pol aid =
           finish_act eng (PHI_pre ext rand pol) ext (payload ext)"
proof (cases "PHI_trigger ext rand (PHI_expire pol)")
  case (Pair act p2)
  with assms have "act = Some (payload ext)" "p2 = PHI_pre ext rand pol"
    by (auto simp add: PHI_pre_def dest!: PHI_trigger_cases)
  with assms Pair show ?thesis
    by (simp add: PHIPolicy_act_def)
qed

lemma PHIPolicy_act_manual:
  assumes "external_actions eng aid = Some ext" "takeover (PHI_pre ext rand pol)"
  shows "PHIPolicy_act eng dev rand pol aid =
     (if controller pol = None then (Inl AttributeError, PHI_pre ext rand pol)
      else if length (raw_action dev) < 2 then (Inl IndexError, PHI_pre ext rand pol)
      else finish_act eng
             ((PHI_pre ext rand pol)\<lparr>current_takeover_last_steps :=
                 current_takeover_last_steps (PHI_pre ext rand pol) + 1\<rparr>)
             ext (if raw_action dev ! 1 < 0 then (raw_action dev)[1 := 0] else raw_action dev))"
proof (cases "PHI_trigger ext rand (PHI_expire pol)")
  case (Pair act p2)
  then have p2: "p2 = PHI_pre ext rand pol"
    by (simp add: PHI_pre_def)
  have "controller p2 = controller pol"
    by (simp add: p2 PHI_pre_fields)
  with assms Pair p2 show ?thesis
    by (auto simp add: PHIPolicy_act_def Let_def split: option.splits)
qed

lemma finish_act_snd:
  "takeover (snd (finish_act eng pol ext a)) = takeover pol"
  "current_takeover_last_steps (snd (finish_act eng pol ext a)) = current_takeover_last_steps pol"
  "takeover_steps (snd (finish_act eng pol ext a)) = takeover_steps pol"
  "controller (snd (finish_act eng pol ext a)) = controller pol"
  by (simp_all add: finish_act_def Let_def)

lemma PHIPolicy_act_takeover:
  assumes "external_actions eng aid = Some ext"
  shows "takeover (snd (PHIPolicy_act eng dev rand pol aid)) = takeover (PHI_pre ext rand pol)"
proof (cases "takeover (PHI_pre ext rand pol)")
  case True
  then show ?thesis
    unfolding PHIPolicy_act_manual [OF assms True] by (simp add: finish_act_snd)
next
  case False
  then show ?thesis
    unfolding PHIPolicy_act_autonomous [OF assms False] by (simp add: finish_act_snd)
qed

lemma PHIPolicy_act_in_range:
  assumes "PHIPolicy_act eng dev rand pol aid = (Inr a, p')"
  shows "in_range a"
proof -
  from assms obtain ext where ext: "external_actions eng aid = Some ext"
    by (auto simp add: PHIPolicy_act_def split: option.splits)
  show ?thesis
  proof (cases "takeover (PHI_pre ext rand pol)")
    case True
    from assms show ?thesis
      unfolding PHIPolicy_act_manual [OF ext True]
      by (auto split: if_splits dest!: finish_act_cases simp add: in_range_map_clip)
  next
    case False
    from assms show ?thesis
      unfolding PHIPolicy_act_autonomous [OF ext False]
      by (auto dest!: finish_act_cases simp add: in_range_map_clip)
  qed
qed

lemma PHIPolicy_act_length:
  assumes "PHIPolicy_act eng dev rand pol aid = (Inr a, p')" "\<not> discrete_action pol"
    "length (raw_action dev) = 2" "external_actions eng aid = Some ext" "length (payload ext) = 2"
  shows "length a = 2"
proof (cases "takeover (PHI_pre ext rand pol)")
  case True
  from assms(1,2,3) show ?thesis
    unfolding PHIPolicy_act_manual [OF assms(4) True]
    by (auto split: if_splits dest!: finish_act_cases simp add: PHI_pre_fields)
next
  case False
  from assms(1,2,5) show ?thesis
    unfolding PHIPolicy_act_autonomous [OF assms(4) False]
    by (auto dest!: finish_act_cases simp add: PHI_pre_fields)
qed

lemma PHI_manual_result:
  assumes "PHIPolicy_act eng dev rand pol aid = (Inr b, q')" "takeover q'" "\<not> discrete_action pol"
    "raw_action dev ! 1 < 0"
  shows "b = map (\<lambda>x. clip x (- 1) 1) ((raw_action dev)[1 := 0]) \<and> 2 \<le> length b \<and> b ! 1 = 0
        \<and> b ! 0 = clip (raw_action dev ! 0) (- 1) 1"
proof -
  from assms(1) obtain ext where ext: "external_actions eng aid = Some ext"
    by (auto simp add: PHIPolicy_act_def split: option.splits)
  from PHIPolicy_act_takeover [OF ext, of dev rand pol] assms(1,2)
  have t: "takeover (PHI_pre ext rand pol)"
    by simp
  from assms(1,3,4) have "2 \<le> length (raw_action dev)
     \<and> b = map (\<lambda>x. clip x (- 1) 1) ((raw_action dev)[1 := 0])"
    unfolding PHIPolicy_act_manual [OF ext t]
    by (auto split: if_splits dest!: finish_act_cases simp add: PHI_pre_fields)
  then have l: "0 < length ((raw_action dev)[1 := 0])" "1 < length ((raw_action dev)[1 := 0])"
    and b: "b = map (\<lambda>x. clip x (- 1) 1) ((raw_action dev)[1 := 0])"
    by auto
  have "b ! 0 = clip (raw_action dev ! 0) (- 1) 1"
    unfolding b nth_map [OF l(1)] by simp
  moreover have "b ! 1 = 0"
    unfolding b nth_map [OF l(2)] using l(2) by (simp add: clip_def)
  ultimately show ?thesis
    using b l by simp
qed

lemma PHI_autonomous_result:
  assumes "PHIPolicy_act eng dev rand pol aid = (Inr b, q')" "\<not> takeover q'" "\<not> discrete_action pol"
    "external_actions eng aid = Some ext"
  shows "b = map (\<lambda>x. clip x (- 1) 1) (payload ext)"
proof -
  from PHIPolicy_act_takeover [OF assms(4), of dev rand pol] assms(1,2)
  have t: "\<not> takeover (PHI_pre ext rand pol)"
    by simp
  from assms(1,3) show ?thesis
    unfolding PHIPolicy_act_autonomous [OF assms(4) t]
    by (auto dest!: finish_act_cases simp add: PHI_pre_fields)
qed

subsection \<open>TakeoverPolicy.act and its brake-free variant\<close>

lemma EnvInputPolicy_act_controller:
  "EnvInputPolicy_act eng pol aid = (r, p') \<Longrightarrow> controller p' = controller pol"
  by (auto dest!: EnvInputPolicy_act_cases)

lemma TakeoverPolicy_act_Inr:
  assumes "TakeoverPolicy_act eng dev pol aid = (Inr a, p')"
  shows "(takeover p' \<and> a = raw_action dev)
       \<or> (\<not> takeover p' \<and> fst (EnvInputPolicy_act eng pol aid) = Inr a \<and> in_range a)"
proof (cases "EnvInputPolicy_act eng pol aid")
  case (Pair r p1)
  with assms obtain b where b: "r = Inr b" "p1 = pol\<lparr>info_action := Some b\<rparr>" "in_range b"
    by (auto simp add: TakeoverPolicy_act_def dest!: EnvInputPolicy_act_cases)
  with assms Pair show ?thesis
    by (auto simp add: TakeoverPolicy_act_def Let_def split: if_splits option.splits)
qed

lemma TakeoverPolicyWithoutBrake_act_Inr:
  assumes "TakeoverPolicyWithoutBrake_act eng dev pol aid = (Inr a, p')"
  shows "\<exists>b. TakeoverPolicy_act eng dev pol aid = (Inr b, p')
           \<and> (if takeover p' then 2 \<le> length b \<and> a = (if b ! 1 < 0 then b[1 := 0] else b)
              else a = b)"
proof (cases "TakeoverPolicy_act eng dev pol aid")
  case (Pair r p1)
  show ?thesis
  proof (cases r)
    case (Inl e)
    with assms Pair show ?thesis
      by (simp add: TakeoverPolicyWithoutBrake_act_def)
  next
    case (Inr b)
    with assms Pair show ?thesis
      by (simp add: TakeoverPolicyWithoutBrake_act_def split: if_splits)
  qed
qed

lemma without_brake_manual:
  assumes "TakeoverPolicyWithoutBrake_act eng dev pol aid = (Inr a, p')" "takeover p'"
    "raw_action dev ! 1 < 0"
  shows "a = (raw_action dev)[1 := 0] \<and> 2 \<le> length a \<and> a ! 1 = 0 \<and> a ! 0 = raw_action dev ! 0"
proof -
  from assms obtain b where b: "TakeoverPolicy_act eng dev pol aid = (Inr b, p')"
    "2 \<le> length b" "a = (if b ! 1 < 0 then b[1 := 0] else b)"
    by (auto dest!: TakeoverPolicyWithoutBrake_act_Inr)
  from TakeoverPolicy_act_Inr [OF b(1)] assms(2) have "b = raw_action dev"
    by simp
  with b assms(3) show ?thesis
    by simp
qed

lemma without_brake_autonomous:
  assumes "TakeoverPolicyWithoutBrake_act eng dev pol aid = (Inr a, p')" "\<not> takeover p'"
  shows "TakeoverPolicy_act eng dev pol aid = (Inr a, p')"
  using assms by (auto dest!: TakeoverPolicyWithoutBrake_act_Inr)

subsection \<open>Consecutive calls of PHIPolicy.act\<close>

lemma PHI_step_state:
  assumes "external_actions (tick_engine t) aid = Some ext"
    and "takeover (PHI_pre ext (tick_rand t) p)
           \<longrightarrow> controller p \<noteq> None \<and> 2 \<le> length (raw_action (tick_device t))"
  shows "takeover (PHI_step aid p t) = takeover (PHI_pre ext (tick_rand t) p)
     \<and> current_takeover_last_steps (PHI_step aid p t) =
         current_takeover_last_steps (PHI_expire p)
           + (if takeover (PHI_pre ext (tick_rand t) p) then 1 else 0)
     \<and> takeover_steps (PHI_step aid p t) = takeover_steps p
     \<and> controller (PHI_step aid p t) = controller p"
proof (cases "takeover (PHI_pre ext (tick_rand t) p)")
  case True
  with assms(2) have "controller p \<noteq> None" "\<not> length (raw_action (tick_device t)) < 2"
    by auto
  with True show ?thesis
    unfolding PHI_step_def PHIPolicy_act_manual [OF assms(1) True]
    by (simp add: finish_act_snd PHI_pre_fields)
next
  case False
  then show ?thesis
    unfolding PHI_step_def PHIPolicy_act_autonomous [OF assms(1) False]
    by (simp add: finish_act_snd PHI_pre_fields)
qed

lemma PHI_step_manual:
  assumes "takeover p" and "current_takeover_last_steps p < takeover_steps p"
    and "controller p \<noteq> None" and "tick_ok aid t"
  shows "takeover (PHI_step aid p t)
     \<and> current_takeover_last_steps (PHI_step aid p t) = current_takeover_last_steps p + 1
     \<and> takeover_steps (PHI_step aid p t) = takeover_steps p
     \<and> controller (PHI_step aid p t) = controller p"
proof -
  from assms(4) obtain ext where ext: "external_actions (tick_engine t) aid = Some ext"
    and len: "2 \<le> length (raw_action (tick_device t))"
    by (auto simp add: tick_ok_def)
  from assms(2) have e: "PHI_expire p = p"
    by (simp add: PHI_expire_def)
  with assms(1) have q: "PHI_pre ext (tick_rand t) p = p"
    by (simp add: PHI_pre_eq)
  from PHI_step_state [OF ext, of p] assms(1,3) len q e show ?thesis
    by simp
qed

lemma PHI_step_fresh:
  assumes "\<not> takeover p \<or> takeover_steps p \<le> current_takeover_last_steps p"
    and "controller p \<noteq> None" and "tick_ok aid t"
    and "external_actions (tick_engine t) aid = Some ext"
  shows "takeover (PHI_step aid p t) = (extra_flag ext \<or> tick_rand t < 0.1)
     \<and> current_takeover_last_steps (PHI_step aid p t) =
         current_takeover_last_steps (PHI_expire p)
           + (if extra_flag ext \<or> tick_rand t < 0.1 then 1 else 0)
     \<and> takeover_steps (PHI_step aid p t) = takeover_steps p
     \<and> controller (PHI_step aid p t) = controller p"
proof -
  from assms(3) have len: "2 \<le> length (raw_action (tick_device t))"
    by (auto simp add: tick_ok_def)
  from assms(1) have e: "\<not> takeover (PHI_expire p)"
    by (auto simp add: PHI_expire_def)
  then have q: "takeover (PHI_pre ext (tick_rand t) p) = (extra_flag ext \<or> tick_rand t < 0.1)"
    by (simp add: PHI_pre_eq)
  from PHI_step_state [OF assms(4), of p] assms(2) len q show ?thesis
    by simp
qed

lemma PHI_run_manual:
  assumes "takeover p" and "current_takeover_last_steps p + int (length ts) \<le> takeover_steps p"
    and "controller p \<noteq> None" and "list_all (tick_ok aid) ts"
  shows "takeover (PHI_run aid p ts)
     \<and> current_takeover_last_steps (PHI_run aid p ts) = current_takeover_last_steps p + int (length ts)
     \<and> takeover_steps (PHI_run aid p ts) = takeover_steps p
     \<and> controller (PHI_run aid p ts) = controller p"
  using assms
proof (induction ts arbitrary: p)
  case Nil
  then show ?case by (simp add: PHI_run_def)
next
  case (Cons t ts)
  from Cons.prems have lt: "current_takeover_last_steps p < takeover_steps p"
    and ok: "tick_ok aid t"
    by simp_all
  note s = PHI_step_manual [OF Cons.prems(1) lt Cons.prems(3) ok]
  from s Cons.prems have "takeover (PHI_step aid p t)"
    "current_takeover_last_steps (PHI_step aid p t) + int (length ts)
       \<le> takeover_steps (PHI_step aid p t)"
    "controller (PHI_step aid p t) \<noteq> None" "list_all (tick_ok aid) ts"
    by simp_all
  from Cons.IH [OF this] s show ?case
    by (simp add: PHI_run_def)
qed

text \<open>
  Outside a takeover the counter is 0: this holds after \<^verbatim>\<open>__init__\<close> and every call
  of \<^verbatim>\<open>act\<close> keeps it, also a call that raises.
\<close>

lemma PHI_step_invariant:
  assumes "\<not> takeover p \<longrightarrow> current_takeover_last_steps p = 0"
  shows "\<not> takeover (PHI_step aid p t) \<longrightarrow> current_takeover_last_steps (PHI_step aid p t) = 0"
proof (cases "external_actions (tick_engine t) aid")
  case None
  with assms show ?thesis
    by (simp add: PHI_step_def PHIPolicy_act_no_input)
next
  case (Some ext)
  let ?q = "PHI_pre ext (tick_rand t) p"
  show ?thesis
  proof (cases "takeover ?q")
    case True
    then show ?thesis
      unfolding PHI_step_def PHIPolicy_act_manual [OF Some True]
      by (simp add: finish_act_snd)
  next
    case False
    from False assms have "current_takeover_last_steps ?q = 0"
      by (auto simp add: PHI_pre_eq PHI_expire_def split: if_splits)
    then show ?thesis
      unfolding PHI_step_def PHIPolicy_act_autonomous [OF Some False]
      by (simp add: finish_act_snd)
  qed
qed

lemma PHI_run_invariant:
  "\<not> takeover p \<longrightarrow> current_takeover_last_steps p = 0 \<Longrightarrow>
     \<not> takeover (PHI_run aid p ts) \<longrightarrow> current_takeover_last_steps (PHI_run aid p ts) = 0"
proof (induction ts arbitrary: p)
  case Nil
  then show ?case by (simp add: PHI_run_def)
next
  case (Cons t ts)
  from Cons.IH [OF PHI_step_invariant [OF Cons.prems]] show ?case
    by (simp add: PHI_run_def)
qed

lemma PHIPolicy_act_rejects:
  assumes "cfg_action_check eng" and "external_actions eng aid = Some ext"
    and "\<not> space_contains (input_space pol) ext"
  shows "PHIPolicy_act eng dev rand pol aid =
     (if takeover (PHI_pre ext rand pol) then
        (if controller pol = None then (Inl AttributeError, PHI_pre ext rand pol)
         else if length (raw_action dev) < 2 then (Inl IndexError, PHI_pre ext rand pol)
         else (Inl AssertionError,
               (PHI_pre ext rand pol)\<lparr>current_takeover_last_steps :=
                  current_takeover_last_steps (PHI_pre ext rand pol) + 1\<rparr>))
      else (Inl AssertionError, PHI_pre ext rand pol))"
proof (cases "takeover (PHI_pre ext rand pol)")
  case True
  from assms(1,3) show ?thesis
    unfolding PHIPolicy_act_manual [OF assms(2) True]
    by (simp add: True finish_act_rejects PHI_pre_fields)
next
  case False
  from assms(1,3) show ?thesis
    unfolding PHIPolicy_act_autonomous [OF assms(2) False]
    by (simp add: False finish_act_rejects PHI_pre_fields)
qed

subsection \<open>ManualControlPolicy\<close>

lemma toggle_takeover_fields:
  "cfg_manual_control (toggle_takeover eng) = cfg_manual_control eng"
  "cfg_action_check (toggle_takeover eng) = cfg_action_check eng"
  "current_track_agent (toggle_takeover eng) = current_track_agent eng"
  "get_agent (toggle_takeover eng) = get_agent eng"
  "main_camera (toggle_takeover eng) = main_camera eng"
  "external_actions (toggle_takeover eng) = external_actions eng"
  by (simp_all add: toggle_takeover_def split: option.splits)

lemma toggles_fields:
  "cfg_manual_control ((toggle_takeover ^^ n) eng) = cfg_manual_control eng
   \<and> cfg_action_check ((toggle_takeover ^^ n) eng) = cfg_action_check eng
   \<and> current_track_agent ((toggle_takeover ^^ n) eng) = current_track_agent eng
   \<and> get_agent ((toggle_takeover ^^ n) eng) = get_agent eng
   \<and> main_camera ((toggle_takeover ^^ n) eng) = main_camera eng
   \<and> external_actions ((toggle_takeover ^^ n) eng) = external_actions eng"
  by (induction n) (simp_all add: toggle_takeover_fields)

lemma authority_cong:
  assumes "cfg_manual_control e' = cfg_manual_control e" "current_track_agent e' = current_track_agent e"
    "get_agent e' = get_agent e" "main_camera e' = main_camera e"
  shows "authority e' aid = authority e aid"
  using assms by (simp add: authority_def)

lemma EnvInputPolicy_act_cong:
  assumes "cfg_action_check e' = cfg_action_check e" "external_actions e' = external_actions e"
  shows "EnvInputPolicy_act e' pol aid = EnvInputPolicy_act e pol aid"
  using assms
  by (simp add: EnvInputPolicy_act_def finish_act_def split: option.splits ext_action.splits)

lemma ManualControlPolicy_decide_authority:
  assumes "authority eng aid"
  shows "ManualControlPolicy_decide eng dev pol aid =
     (Inr (raw_action dev),
      pol\<lparr>info_manual_control := Some True, info_action := Some (raw_action dev)\<rparr>, eng)"
proof -
  from assms have "main_camera eng = None \<or> main_camera eng = Some False"
    by (cases "main_camera eng") (auto simp add: authority_def)
  with assms show ?thesis
    by (auto simp add: ManualControlPolicy_decide_def authority_def Let_def)
qed

lemma ManualControlPolicy_decide_default:
  assumes "\<not> authority eng aid"
  shows "ManualControlPolicy_decide eng dev pol aid =
     (case EnvInputPolicy_act eng pol aid of
        (Inl e, p) \<Rightarrow> (Inl e, p, eng)
      | (Inr a, p) \<Rightarrow> (Inr a, p\<lparr>info_manual_control := Some False, info_action := Some a\<rparr>, eng))"
proof -
  from assms have "\<not> cfg_manual_control eng \<or> Some (get_agent eng aid) \<noteq> current_track_agent eng
      \<or> main_camera eng = Some True"
    by (auto simp add: authority_def)
  then show ?thesis
    by (auto simp add: ManualControlPolicy_decide_def Let_def)
qed

lemma ManualControlPolicy_decide_Inr:
  assumes "ManualControlPolicy_decide eng dev pol aid = (Inr a, p', eng')"
  shows "eng' = eng \<and>
     ((authority eng aid \<and> a = raw_action dev \<and> info_manual_control p' = Some True
         \<and> info_action p' = Some a)
      \<or> (\<not> authority eng aid \<and> fst (EnvInputPolicy_act eng pol aid) = Inr a
         \<and> info_manual_control p' = Some False \<and> info_action p' = Some a))"
proof (cases "authority eng aid")
  case True
  with assms show ?thesis
    by (auto simp add: ManualControlPolicy_decide_authority)
next
  case False
  with assms show ?thesis
    by (cases "EnvInputPolicy_act eng pol aid")
       (auto simp add: ManualControlPolicy_decide_default split: sum.splits)
qed

lemma ManualControlPolicy_act_unfold:
  assumes "controller pol = Some c"
    and "current_track_agent ((toggle_takeover ^^ others_callbacks dev) eng) = Some t"
  shows "ManualControlPolicy_act eng dev expert pol aid =
     (if expert_takeover ((toggle_takeover ^^ others_callbacks dev) eng) t \<and> enable_expert pol then
        (case expert of
           Inr action \<Rightarrow> (Inr action, pol, (toggle_takeover ^^ others_callbacks dev) eng)
         | Inl e \<Rightarrow>
             if e = ValueError \<or> e = AssertionError
             then ManualControlPolicy_decide
                    (toggle_takeover ((toggle_takeover ^^ others_callbacks dev) eng)) dev pol aid
             else (Inl e, pol, (toggle_takeover ^^ others_callbacks dev) eng))
      else ManualControlPolicy_decide ((toggle_takeover ^^ others_callbacks dev) eng) dev pol aid)"
  using assms by (simp add: ManualControlPolicy_act_def Let_def)

lemma ManualControlPolicy_act_progress:
  assumes "controller pol \<noteq> None" and "authority eng aid"
    and "\<not> (expert_engaged ((toggle_takeover ^^ others_callbacks dev) eng) \<and> enable_expert pol)"
  shows "ManualControlPolicy_act eng dev expert pol aid =
     (Inr (raw_action dev),
      pol\<lparr>info_manual_control := Some True, info_action := Some (raw_action dev)\<rparr>,
      (toggle_takeover ^^ others_callbacks dev) eng)"
proof -
  let ?e = "(toggle_takeover ^^ others_callbacks dev) eng"
  note tf = toggles_fields [of "others_callbacks dev" eng]
  from tf assms(2) have au: "authority ?e aid"
    by (simp add: authority_def)
  then obtain t where t: "current_track_agent ?e = Some t"
    by (auto simp add: authority_def dest: sym)
  with assms(3) have "\<not> (expert_takeover ?e t \<and> enable_expert pol)"
    by (simp add: expert_engaged_def)
  with assms(1) t show ?thesis
    by (auto simp add: ManualControlPolicy_act_def ManualControlPolicy_decide_authority [OF au])
qed

lemma takeover_only_with_authority:
  assumes "TakeoverPolicy_act eng dev pol aid = (Inr b, q')" "takeover q'"
  shows "cfg_manual_control eng \<and> Some (get_agent eng aid) = current_track_agent eng
     \<and> main_camera eng = Some False \<and> info_manual_control q' = info_manual_control pol"
proof (cases "EnvInputPolicy_act eng pol aid")
  case (Pair r p1)
  with assms obtain c where b: "r = Inr c" "p1 = pol\<lparr>info_action := Some c\<rparr>"
    by (auto simp add: TakeoverPolicy_act_def dest!: EnvInputPolicy_act_cases)
  with assms Pair show ?thesis
    by (auto simp add: TakeoverPolicy_act_def Let_def split: if_splits option.splits)
qed

lemma ManualControlPolicy_act_expert:
  assumes "controller pol \<noteq> None"
    and "expert_engaged ((toggle_takeover ^^ others_callbacks dev) eng)" and "enable_expert pol"
    and "expert = Inr x"
  shows "fst (ManualControlPolicy_act eng dev expert pol aid) = Inr x"
proof -
  let ?e = "(toggle_takeover ^^ others_callbacks dev) eng"
  from assms(1) obtain c where c: "controller pol = Some c"
    by auto
  from assms(2) obtain t where t: "current_track_agent ?e = Some t" "expert_takeover ?e t"
    by (auto simp add: expert_engaged_def split: option.splits)
  from assms(3,4) t(2) show ?thesis
    unfolding ManualControlPolicy_act_unfold [OF c t(1)] by simp
qed

lemma ManualControlPolicy_act_decided:
  assumes "ManualControlPolicy_act eng dev expert pol aid = (Inr a, p', eng')"
    and "\<not> (expert_engaged ((toggle_takeover ^^ others_callbacks dev) eng) \<and> enable_expert pol
            \<and> \<not> isl expert)"
  shows "(authority eng aid \<and> a = raw_action dev \<and> info_manual_control p' = Some True
            \<and> info_action p' = Some a)
       \<or> (\<not> authority eng aid \<and> fst (EnvInputPolicy_act eng pol aid) = Inr a
            \<and> info_manual_control p' = Some False \<and> info_action p' = Some a)"
proof -
  let ?e = "(toggle_takeover ^^ others_callbacks dev) eng"
  note tf = toggles_fields [of "others_callbacks dev" eng]
  from tf have au: "authority ?e aid = authority eng aid"
    "authority (toggle_takeover ?e) aid = authority eng aid"
    by (simp_all add: authority_def toggle_takeover_fields)
  have en: "EnvInputPolicy_act ?e pol aid = EnvInputPolicy_act eng pol aid"
    "EnvInputPolicy_act (toggle_takeover ?e) pol aid = EnvInputPolicy_act eng pol aid"
    by (rule EnvInputPolicy_act_cong; simp add: tf toggle_takeover_fields)+
  from assms(1) obtain c where c: "controller pol = Some c"
    by (cases "controller pol") (simp_all add: ManualControlPolicy_act_def)
  from assms(1) c obtain t where t: "current_track_agent ?e = Some t"
    by (cases "current_track_agent ?e") (simp_all add: ManualControlPolicy_act_def Let_def)
  note eq = ManualControlPolicy_act_unfold [OF c t, of expert aid]
  have dec: ?thesis if d: "ManualControlPolicy_decide e1 dev pol aid = (Inr a, p', eng')"
    and e: "authority e1 aid = authority eng aid"
      "EnvInputPolicy_act e1 pol aid = EnvInputPolicy_act eng pol aid" for e1
    using ManualControlPolicy_decide_Inr [OF d] unfolding e by blast
  show ?thesis
  proof (cases "expert_takeover ?e t \<and> enable_expert pol")
    case False
    with assms(1) eq have "ManualControlPolicy_decide ?e dev pol aid = (Inr a, p', eng')"
      by simp
    then show ?thesis
      using au(1) en(1) by (rule dec)
  next
    case True
    with t assms(2) obtain x where x: "expert = Inl x"
      by (cases expert) (simp_all add: expert_engaged_def)
    with assms(1) eq True
    have "ManualControlPolicy_decide (toggle_takeover ?e) dev pol aid = (Inr a, p', eng')"
      by (auto split: if_splits)
    then show ?thesis
      using au(2) en(2) by (rule dec)
  qed
qed

lemma ManualControlPolicy_act_default:
  assumes "controller pol \<noteq> None" and "current_track_agent eng \<noteq> None"
    and "\<not> authority eng aid"
    and "\<not> (expert_engaged ((toggle_takeover ^^ others_callbacks dev) eng) \<and> enable_expert pol)"
    and "EnvInputPolicy_act eng pol aid = (Inr a, p1)"
  shows "ManualControlPolicy_act eng dev expert pol aid =
     (Inr a, p1\<lparr>info_manual_control := Some False, info_action := Some a\<rparr>,
      (toggle_takeover ^^ others_callbacks dev) eng)"
proof -
  let ?e = "(toggle_takeover ^^ others_callbacks dev) eng"
  note tf = toggles_fields [of "others_callbacks dev" eng]
  from tf assms(3) have au: "\<not> authority ?e aid"
    by (simp add: authority_def)
  have en: "EnvInputPolicy_act ?e pol aid = EnvInputPolicy_act eng pol aid"
    by (rule EnvInputPolicy_act_cong; simp add: tf)
  from assms(1) obtain c where c: "controller pol = Some c"
    by auto
  from tf assms(2) obtain t where t: "current_track_agent ?e = Some t"
    by auto
  with assms(4) have "\<not> (expert_takeover ?e t \<and> enable_expert pol)"
    by (simp add: expert_engaged_def)
  then have "ManualControlPolicy_act eng dev expert pol aid =
      ManualControlPolicy_decide ?e dev pol aid"
    unfolding ManualControlPolicy_act_unfold [OF c t] by (rule if_not_P)
  then show ?thesis
    by (simp add: ManualControlPolicy_decide_default [OF au] en assms(5))
qed

lemma TakeoverPolicy_act_keeps_flag:
  "info_manual_control (snd (TakeoverPolicy_act eng dev pol aid)) = info_manual_control pol"
proof (cases "EnvInputPolicy_act eng pol aid")
  case (Pair r p1)
  then have p1: "info_manual_control p1 = info_manual_control pol"
    by (auto dest!: EnvInputPolicy_act_cases)
  show ?thesis
  proof (cases r)
    case (Inl e)
    with Pair p1 show ?thesis
      by (simp add: TakeoverPolicy_act_def)
  next
    case (Inr b)
    with Pair p1 show ?thesis
      by (simp add: TakeoverPolicy_act_def Let_def split: option.splits)
  qed
qed

lemma takeover_uses_device:
  assumes "TakeoverPolicy_act eng dev pol aid = (Inr b, q')" "takeover q'"
  shows "cfg_manual_control eng \<and> Some (get_agent eng aid) = current_track_agent eng
     \<and> main_camera eng = Some False \<and> b = raw_action dev"
  using takeover_only_with_authority [OF assms] TakeoverPolicy_act_Inr [OF assms(1)] assms(2)
  by simp

lemma ManualControlPolicy_init_never_warns:
  "ManualControlPolicy_init eng hw = Inr r \<Longrightarrow> \<not> warned r"
  using get_controller_not_None [of hw "cfg_controller eng"]
  by (auto simp add: ManualControlPolicy_init_def Let_def split: if_splits sum.splits option.splits)

lemma ManualControlPolicy_init_propagates:
  "cfg_manual_control eng \<Longrightarrow>
   get_controller hw (cfg_controller eng) (\<not> cfg_use_render eng) = Inl e \<Longrightarrow>
   ManualControlPolicy_init eng hw = Inl e"
  by (auto simp add: ManualControlPolicy_init_def Let_def)

subsection \<open>Evaluation of the concrete inputs\<close>

lemmas concrete_defs = eng0_def pol0_def dev0_def tick0_def PHIPolicy_init_def Box_def clip_def
  in_range_def JOYSTICK_DEADZONE_def

lemmas act_defs = PHIPolicy_act_def PHI_expire_def PHI_trigger_def finish_act_def
  EnvInputPolicy_act_def TakeoverPolicy_act_def TakeoverPolicyWithoutBrake_act_def Let_def

lemmas manual_defs = ManualControlPolicy_act_def ManualControlPolicy_decide_def toggle_takeover_def
  authority_def expert_engaged_def

lemma lower_examples:
  "lower ''KeyBoard'' = ''keyboard''" "lower ''XBOX'' = ''xbox''" "lower ''Gamepad'' = ''gamepad''"
  "lower ''joystick'' = ''joystick''" "lower ''Steering_Wheel'' = ''steering_wheel''"
  "lower ''WHEEL'' = ''wheel''" "lower ''joypad2'' = ''joypad2''" "lower ''keyboard'' = ''keyboard''"
  by code_simp+

text \<open>
  The early return of line 78 in \<^verbatim>\<open>ManualControlPolicy.act\<close> does not write
  \<^verbatim>\<open>action_info\<close>, whereas the two paths of lines 88 and 91 do: after the two calls
  \<open>manual_tick1\<close>, \<open>manual_tick2\<close> the flag still holds what the first call wrote.
\<close>

lemma expert_return_leaves_action_info:
  "info_manual_control (fst (snd manual_tick1)) = Some True
   \<and> \<not> authority ((snd (snd manual_tick1))\<lparr>main_camera := Some True\<rparr>) ''agent0''
   \<and> fst manual_tick2 = Inr [0, 1/2]
   \<and> info_manual_control (fst (snd manual_tick2)) = Some True"
  by (simp add: manual_tick1_def manual_tick2_def manual_defs act_defs concrete_defs)

section \<open>The claims\<close>

subsection \<open>C1: range of the returned action\<close>

text \<open>
  Claim C1 says that every policy returns a 2-element vector with each component in
  [-1,1], the device action chosen under MANUAL included. The code does this in
  \<^verbatim>\<open>PHIPolicy.act\<close> only. As amended: whatever \<^verbatim>\<open>PHIPolicy.act\<close> returns has every
  component in [-1,1], and two components when actions are continuous and the device's
  list and the external vector have two; \<^verbatim>\<open>TakeoverPolicy.act\<close> returns an action in
  [-1,1] when it stays autonomous, and returns the device's list exactly as the device
  gave it when it takes over.
\<close>

theorem act_result_range:
  "(PHIPolicy_act eng dev rand pol aid = (Inr a, p') \<longrightarrow> in_range a) \<and>
   (PHIPolicy_act eng dev rand pol aid = (Inr a, p') \<and> \<not> discrete_action pol
      \<and> length (raw_action dev) = 2 \<and> external_actions eng aid = Some ext
      \<and> length (payload ext) = 2 \<longrightarrow> length a = 2) \<and>
   (TakeoverPolicy_act eng dev pol aid = (Inr b, q') \<and> \<not> takeover q' \<longrightarrow> in_range b) \<and>
   (TakeoverPolicy_act eng dev pol aid = (Inr b, q') \<and> takeover q' \<longrightarrow> b = raw_action dev)"
  using PHIPolicy_act_in_range [of eng dev rand pol aid a p']
    PHIPolicy_act_length [of eng dev rand pol aid a p' ext]
    TakeoverPolicy_act_Inr [of eng dev pol aid b q']
  by blast

text \<open>
  A tick of \<^verbatim>\<open>PHIPolicy\<close> on which the draw 0.05 starts a takeover and the device
  gives \<open>[2, -0.5]\<close>: the result is \<open>[1, 0]\<close>. A tick of \<^verbatim>\<open>TakeoverPolicy\<close> with
  the keyboard at rest: the result is the clipped external action.
\<close>

theorem act_result_range_witness:
  "fst (PHIPolicy_act eng0 (dev0\<lparr>raw_action := [2, - 1/2]\<rparr>) (1/20)
          (pol0 (KeyboardController False)) ''agent0'') = Inr [1, 0]
   \<and> in_range [1, 0] \<and> length [1, 0 :: real] = 2
   \<and> fst (TakeoverPolicy_act eng0 dev0 (pol0 (KeyboardController False)) ''agent0'')
        = Inr [1/4, - 1/2]
   \<and> in_range [1/4, - 1/2]"
proof -
  let ?X = "PHIPolicy_act eng0 (dev0\<lparr>raw_action := [2, - 1/2]\<rparr>) (1/20)
              (pol0 (KeyboardController False)) ''agent0''"
  let ?Y = "TakeoverPolicy_act eng0 dev0 (pol0 (KeyboardController False)) ''agent0''"
  have x: "fst ?X = Inr [1, 0]"
    by (simp add: act_defs concrete_defs)
  then have x': "?X = (Inr [1, 0], snd ?X)"
    by (simp add: prod_eq_iff)
  have y: "fst ?Y = Inr [1/4, - 1/2]" "\<not> takeover (snd ?Y)"
    by (simp_all add: act_defs concrete_defs)
  then have y': "?Y = (Inr [1/4, - 1/2], snd ?Y)"
    by (simp add: prod_eq_iff)
  have h: "\<not> discrete_action (pol0 (KeyboardController False))"
    "length (raw_action (dev0\<lparr>raw_action := [2, - 1/2]\<rparr>)) = 2"
    "external_actions eng0 ''agent0'' = Some (Bare [1/4, - 1/2])"
    "length (payload (Bare [1/4, - 1/2])) = 2"
    by (simp_all add: concrete_defs)
  from act_result_range [of eng0 "dev0\<lparr>raw_action := [2, - 1/2]\<rparr>" "1/20"
      "pol0 (KeyboardController False)" "''agent0''" "[1, 0]" "snd ?X" "Bare [1/4, - 1/2]"]
    act_result_range [of eng0 dev0 _ "pol0 (KeyboardController False)" "''agent0''" _ _ _
      "[1/4, - 1/2]" "snd ?Y"]
    x x' y y' h
  show ?thesis
    by simp
qed

text \<open>
  The claim as stated fails: with the keyboard's takeover flag set and the device giving
  \<open>[2, 0]\<close>, \<^verbatim>\<open>TakeoverPolicy.act\<close> returns \<open>[2, 0]\<close>, which is not in range.
\<close>

theorem act_result_range_counterexample:
  "fst (TakeoverPolicy_act eng0 (dev0\<lparr>raw_action := [2, 0], kb_takeover := True\<rparr>)
          (pol0 (KeyboardController False)) ''agent0'') = Inr [2, 0]
   \<and> \<not> in_range [2, 0]"
  by (simp add: act_defs concrete_defs)

subsection \<open>C2: the keyboard rule\<close>

text \<open>
  Claim C2 says that with a keyboard the arbiter takes over exactly when the takeover
  flag is set or the sum of the absolute values of the raw action's components exceeds
  0.01. The code compares the absolute value of the sum. As amended: when manual control
  is on, the agent is the tracked one and the camera is not in bird's-eye view,
  \<^verbatim>\<open>TakeoverPolicy.act\<close> with a keyboard sets \<^verbatim>\<open>takeover\<close> and returns the
  keyboard's raw action exactly when the keyboard's takeover flag is set or the absolute
  value of the sum of the raw action's components exceeds 0.01; otherwise it clears
  \<^verbatim>\<open>takeover\<close> and returns the action of \<^verbatim>\<open>EnvInputPolicy\<close>. The state the policy
  was in before the call plays no part.
\<close>

theorem keyboard_takeover_rule:
  assumes "cfg_manual_control eng" and "Some (get_agent eng aid) = current_track_agent eng"
    and "main_camera eng = Some False"
    and "controller pol = Some (KeyboardController pg)"
    and "EnvInputPolicy_act eng pol aid = (Inr agent_action, pol1)"
  shows "TakeoverPolicy_act eng dev pol aid =
           (if kb_takeover dev \<or> \<bar>sum_list (raw_action dev)\<bar> > 0.01
            then (Inr (raw_action dev), pol1\<lparr>takeover := True\<rparr>)
            else (Inr agent_action, pol1\<lparr>takeover := False\<rparr>))"
proof -
  from assms(4,5) have "controller pol1 = Some (KeyboardController pg)"
    by (simp add: EnvInputPolicy_act_controller)
  with assms show ?thesis
    by (simp add: TakeoverPolicy_act_def)
qed

theorem keyboard_takeover_rule_witness:
  "TakeoverPolicy_act eng0 (dev0\<lparr>raw_action := [1/2, 1/4]\<rparr>)
       (pol0 (KeyboardController False)) ''agent0''
     = (Inr [1/2, 1/4],
        (pol0 (KeyboardController False))\<lparr>info_action := Some [1/4, - 1/2], takeover := True\<rparr>)"
proof -
  have env: "EnvInputPolicy_act eng0 (pol0 (KeyboardController False)) ''agent0''
      = (Inr [1/4, - 1/2], (pol0 (KeyboardController False))\<lparr>info_action := Some [1/4, - 1/2]\<rparr>)"
    by (simp add: act_defs concrete_defs)
  have "cfg_manual_control eng0" "Some (get_agent eng0 ''agent0'') = current_track_agent eng0"
    "main_camera eng0 = Some False"
    "controller (pol0 (KeyboardController False)) = Some (KeyboardController False)"
    by (simp_all add: concrete_defs)
  from keyboard_takeover_rule [OF this env, of "dev0\<lparr>raw_action := [1/2, 1/4]\<rparr>"]
  show ?thesis
    by (simp add: dev0_def)
qed

text \<open>
  The claim as stated fails: the keyboard gives full right steering and full brake,
  \<open>[1, -1]\<close>, with the takeover flag unset. The absolute values sum to 2, yet the
  components sum to 0, so the policy stays autonomous and returns the external action.
\<close>

theorem keyboard_takeover_rule_counterexample:
  "\<not> kb_takeover (dev0\<lparr>raw_action := [1, - 1]\<rparr>)
   \<and> sum_list (map abs [1, - 1 :: real]) > 0.01
   \<and> fst (TakeoverPolicy_act eng0 (dev0\<lparr>raw_action := [1, - 1]\<rparr>)
            (pol0 (KeyboardController False)) ''agent0'') = Inr [1/4, - 1/2]
   \<and> \<not> takeover (snd (TakeoverPolicy_act eng0 (dev0\<lparr>raw_action := [1, - 1]\<rparr>)
                        (pol0 (KeyboardController False)) ''agent0''))"
  by (simp add: act_defs concrete_defs)

subsection \<open>C3: the gamepad deadzone\<close>

text \<open>
  Claim C3: with a gamepad, when none of the buttons A, B, X, Y is pressed and the
  absolute values of the raw action's components sum to at most 0.025,
  \<^verbatim>\<open>TakeoverPolicy.act\<close> does not take over and returns the agent's own action, the one
  \<^verbatim>\<open>EnvInputPolicy.act\<close> produced.
\<close>

theorem gamepad_deadzone:
  assumes "controller pol = Some XboxController"
    and "\<not> button_a dev" and "\<not> button_b dev" and "\<not> button_x dev" and "\<not> button_y dev"
    and "sum_list (map abs (raw_action dev)) \<le> 0.025"
    and "EnvInputPolicy_act eng pol aid = (Inr agent_action, pol1)"
    and "main_camera eng \<noteq> None"
  shows "TakeoverPolicy_act eng dev pol aid = (Inr agent_action, pol1\<lparr>takeover := False\<rparr>)"
proof -
  from assms(1,7) have c: "controller pol1 = Some XboxController"
    by (simp add: EnvInputPolicy_act_controller)
  have "\<bar>sum_list (raw_action dev)\<bar> \<le> sum_list (map abs (raw_action dev))"
    by (rule sum_list_abs)
  with assms(6) have "\<not> \<bar>sum_list (raw_action dev)\<bar> > JOYSTICK_DEADZONE"
    by (simp add: JOYSTICK_DEADZONE_def)
  with assms c show ?thesis
    by (auto simp add: TakeoverPolicy_act_def)
qed

text \<open>A stick deflected by 0.0125 on each axis, on the boundary of the deadzone.\<close>

theorem gamepad_deadzone_witness:
  "sum_list (map abs (raw_action (dev0\<lparr>raw_action := [1/80, - 1/80]\<rparr>))) \<le> 0.025
   \<and> TakeoverPolicy_act eng0 (dev0\<lparr>raw_action := [1/80, - 1/80]\<rparr>) (pol0 XboxController) ''agent0''
       = (Inr [1/4, - 1/2],
          (pol0 XboxController)\<lparr>info_action := Some [1/4, - 1/2], takeover := False\<rparr>)"
proof -
  let ?d = "dev0\<lparr>raw_action := [1/80, - 1/80]\<rparr>"
  have env: "EnvInputPolicy_act eng0 (pol0 XboxController) ''agent0''
      = (Inr [1/4, - 1/2], (pol0 XboxController)\<lparr>info_action := Some [1/4, - 1/2]\<rparr>)"
    by (simp add: act_defs concrete_defs)
  have h: "controller (pol0 XboxController) = Some XboxController"
    "\<not> button_a ?d" "\<not> button_b ?d" "\<not> button_x ?d" "\<not> button_y ?d"
    "sum_list (map abs (raw_action ?d)) \<le> 0.025"
    by (simp_all add: concrete_defs)
  have cam: "main_camera eng0 \<noteq> None"
    by (simp add: eng0_def)
  from h(6) gamepad_deadzone [OF h env cam] show ?thesis
    by simp
qed

subsection \<open>C4: the minimum duration of a takeover in PHIPolicy\<close>

text \<open>
  Claim C4. A \<^verbatim>\<open>PHIPolicy\<close> is autonomous (\<^verbatim>\<open>takeover\<close> false, counter 0), or
  its previous takeover is due to expire, and a call \<open>t0\<close> of \<^verbatim>\<open>act\<close> enters the
  takeover. Then, whatever the inputs of the following
  calls \<open>ts\<close> are, \<^verbatim>\<open>takeover\<close> holds after \<open>t0\<close> and after each of the next
  \<^verbatim>\<open>takeover_steps\<close> - 1 calls, \<^verbatim>\<open>takeover_steps\<close> consecutive calls in all, the
  counter counting them. On the call after those, \<open>t1\<close>, the countdown has expired: the
  counter restarts from 0 and \<^verbatim>\<open>takeover\<close> is decided afresh, by the external flag
  and by the draw being below 0.1; if neither triggers, the policy is autonomous again.
  The ticks are those on which the call reaches the counter: a controller exists, the
  device returns two components, the agent has an external input.
\<close>

theorem PHIPolicy_minimum_duration:
  assumes "0 < takeover_steps p0"
    and "(\<not> takeover p0 \<and> current_takeover_last_steps p0 = 0)
         \<or> takeover_steps p0 \<le> current_takeover_last_steps p0"
    and "controller p0 \<noteq> None"
    and "list_all (tick_ok aid) (t0 # ts)" and "tick_ok aid t1"
    and "takeover (PHI_step aid p0 t0)"
    and "int (length ts) + 1 = takeover_steps p0"
    and "external_actions (tick_engine t1) aid = Some ext1"
  shows "(\<forall>k \<le> length ts.
            takeover (PHI_run aid p0 (t0 # take k ts))
          \<and> current_takeover_last_steps (PHI_run aid p0 (t0 # take k ts)) = int k + 1)
       \<and> takeover (PHI_run aid p0 (t0 # ts @ [t1])) = (extra_flag ext1 \<or> tick_rand t1 < 0.1)
       \<and> current_takeover_last_steps (PHI_run aid p0 (t0 # ts @ [t1])) =
           (if extra_flag ext1 \<or> tick_rand t1 < 0.1 then 1 else 0)"
proof -
  let ?p1 = "PHI_step aid p0 t0"
  from assms(4) obtain ext0 where ext0: "external_actions (tick_engine t0) aid = Some ext0"
    and ok0: "tick_ok aid t0" and oks: "list_all (tick_ok aid) ts"
    by (auto simp add: tick_ok_def)
  from assms(2) have c0: "current_takeover_last_steps (PHI_expire p0) = 0"
    by (auto simp add: PHI_expire_def)
  from assms(2) have "\<not> takeover p0 \<or> takeover_steps p0 \<le> current_takeover_last_steps p0"
    by auto
  from PHI_step_fresh [OF this assms(3) ok0 ext0] assms(6) c0
  have p1: "takeover ?p1" "current_takeover_last_steps ?p1 = 1"
    "takeover_steps ?p1 = takeover_steps p0" "controller ?p1 = controller p0"
    by (simp_all split: if_splits)
  have run: "takeover (PHI_run aid ?p1 us)
      \<and> current_takeover_last_steps (PHI_run aid ?p1 us) = int (length us) + 1
      \<and> takeover_steps (PHI_run aid ?p1 us) = takeover_steps p0
      \<and> controller (PHI_run aid ?p1 us) = controller p0"
    if "list_all (tick_ok aid) us" "length us \<le> length ts" for us
  proof -
    from that(2) assms(7) p1
    have "current_takeover_last_steps ?p1 + int (length us) \<le> takeover_steps ?p1"
      by simp
    from PHI_run_manual [OF p1(1) this _ that(1)] p1 assms(3) show ?thesis
      by simp
  qed
  have cons: "PHI_run aid p0 (t0 # us) = PHI_run aid ?p1 us" for us
    by (simp add: PHI_run_def)
  have first: "\<forall>k \<le> length ts.
            takeover (PHI_run aid p0 (t0 # take k ts))
          \<and> current_takeover_last_steps (PHI_run aid p0 (t0 # take k ts)) = int k + 1"
  proof (intro allI impI)
    fix k assume k: "k \<le> length ts"
    from oks have "list_all (tick_ok aid) (take k ts)"
      by (auto simp add: list_all_iff dest: in_set_takeD)
    from run [OF this] k show "takeover (PHI_run aid p0 (t0 # take k ts))
          \<and> current_takeover_last_steps (PHI_run aid p0 (t0 # take k ts)) = int k + 1"
      by (simp add: cons min_def)
  qed
  let ?pf = "PHI_run aid ?p1 ts"
  from run [OF oks] assms(7) have pf: "takeover_steps ?pf \<le> current_takeover_last_steps ?pf"
    "controller ?pf \<noteq> None" "current_takeover_last_steps (PHI_expire ?pf) = 0"
    using assms(3) by (simp_all add: PHI_expire_def)
  have last: "PHI_run aid p0 (t0 # ts @ [t1]) = PHI_step aid ?pf t1"
    by (simp add: PHI_run_def)
  from pf(1) have "\<not> takeover ?pf \<or> takeover_steps ?pf \<le> current_takeover_last_steps ?pf"
    by simp
  from PHI_step_fresh [OF this pf(2) assms(5) assms(8)] pf(3) first show ?thesis
    by (simp add: last)
qed

text \<open>
  A fresh policy with the default of 10 steps: the draw 0.05 starts the takeover, nine
  ticks with the draw 0.5 follow, and an eleventh ends it.
\<close>

theorem PHIPolicy_minimum_duration_witness:
  "takeover (PHI_run ''agent0'' (pol0 XboxController)
               (tick0\<lparr>tick_rand := 1/20\<rparr> # replicate 9 tick0))
   \<and> current_takeover_last_steps
       (PHI_run ''agent0'' (pol0 XboxController)
          (tick0\<lparr>tick_rand := 1/20\<rparr> # replicate 9 tick0)) = 10
   \<and> \<not> takeover (PHI_run ''agent0'' (pol0 XboxController)
                   (tick0\<lparr>tick_rand := 1/20\<rparr> # replicate 9 tick0 @ [tick0]))
   \<and> current_takeover_last_steps
       (PHI_run ''agent0'' (pol0 XboxController)
          (tick0\<lparr>tick_rand := 1/20\<rparr> # replicate 9 tick0 @ [tick0])) = 0"
proof -
  let ?p = "pol0 XboxController" and ?t = "tick0\<lparr>tick_rand := 1/20\<rparr>"
  have h: "0 < takeover_steps ?p"
    "(\<not> takeover ?p \<and> current_takeover_last_steps ?p = 0)
       \<or> takeover_steps ?p \<le> current_takeover_last_steps ?p"
    "controller ?p \<noteq> None"
    by (simp_all add: concrete_defs)
  have ok: "list_all (tick_ok ''agent0'') (?t # replicate 9 tick0)" "tick_ok ''agent0'' tick0"
    by (simp_all add: list_all_iff tick_ok_def concrete_defs)
  have enter: "takeover (PHI_step ''agent0'' ?p ?t)"
    by (simp add: PHI_step_def act_defs concrete_defs)
  have len: "int (length (replicate 9 tick0)) + 1 = takeover_steps ?p"
    by (simp add: concrete_defs)
  have ext: "external_actions (tick_engine tick0) ''agent0'' = Some (Bare [1/4, - 1/2])"
    by (simp add: tick0_def eng0_def)
  from PHIPolicy_minimum_duration [OF h ok enter len ext]
  have "(\<forall>k \<le> 9. takeover (PHI_run ''agent0'' ?p (?t # take k (replicate 9 tick0)))
          \<and> current_takeover_last_steps
               (PHI_run ''agent0'' ?p (?t # take k (replicate 9 tick0))) = int k + 1)
       \<and> \<not> takeover (PHI_run ''agent0'' ?p (?t # replicate 9 tick0 @ [tick0]))
       \<and> current_takeover_last_steps
           (PHI_run ''agent0'' ?p (?t # replicate 9 tick0 @ [tick0])) = 0"
    by (simp add: tick0_def)
  then show ?thesis
    by (auto dest: spec [of _ 9])
qed

subsection \<open>C5: brake suppression\<close>

text \<open>
  Claim C5 says that in the two variants a MANUAL-sourced action with a negative second
  component is returned with second component 0 and the first unchanged, and that
  autonomous actions are not modified. In \<^verbatim>\<open>PHIPolicy.act\<close> the device's action is
  clipped after the brake is removed, so a steering value outside [-1,1] does change. As
  amended: \<^verbatim>\<open>TakeoverPolicyWithoutBrake.act\<close> returns the device's list with the second
  component set to 0 and every other component as it was, and hands on unchanged what
  \<^verbatim>\<open>TakeoverPolicy.act\<close> returns when that stays autonomous; \<^verbatim>\<open>PHIPolicy.act\<close>, with
  continuous actions, returns the device's list with the second component set to 0 and
  then clipped into [-1,1], so the second component is 0 and the first is the clipped
  steering, and outside a takeover it returns the clipped external action, whose negative
  second component is kept.
\<close>

theorem brake_suppression:
  "(TakeoverPolicyWithoutBrake_act eng dev pol aid = (Inr a, p') \<and> takeover p'
      \<and> raw_action dev ! 1 < 0
    \<longrightarrow> a = (raw_action dev)[1 := 0] \<and> 2 \<le> length a \<and> a ! 1 = 0
        \<and> a ! 0 = raw_action dev ! 0) \<and>
   (TakeoverPolicyWithoutBrake_act eng dev pol aid = (Inr a, p') \<and> \<not> takeover p'
    \<longrightarrow> TakeoverPolicy_act eng dev pol aid = (Inr a, p')) \<and>
   (PHIPolicy_act eng dev rand pol aid = (Inr b, q') \<and> takeover q' \<and> \<not> discrete_action pol
      \<and> raw_action dev ! 1 < 0
    \<longrightarrow> b = map (\<lambda>x. clip x (- 1) 1) ((raw_action dev)[1 := 0]) \<and> 2 \<le> length b \<and> b ! 1 = 0
        \<and> b ! 0 = clip (raw_action dev ! 0) (- 1) 1) \<and>
   (PHIPolicy_act eng dev rand pol aid = (Inr b, q') \<and> \<not> takeover q' \<and> \<not> discrete_action pol
      \<and> external_actions eng aid = Some ext
    \<longrightarrow> b = map (\<lambda>x. clip x (- 1) 1) (payload ext))"
  using without_brake_manual [of eng dev pol aid a p']
    without_brake_autonomous [of eng dev pol aid a p']
    PHI_manual_result [of eng dev rand pol aid b q']
    PHI_autonomous_result [of eng dev rand pol aid b q' ext]
  by blast

text \<open>
  A keyboard takeover with the device giving \<open>[0.5, -0.5]\<close>, under both variants, and
  the autonomous ticks of both.
\<close>

theorem brake_suppression_witness:
  "fst (TakeoverPolicyWithoutBrake_act eng0 (dev0\<lparr>raw_action := [1/2, - 1/2], kb_takeover := True\<rparr>)
          (pol0 (KeyboardController False)) ''agent0'') = Inr [1/2, 0]
   \<and> fst (TakeoverPolicyWithoutBrake_act eng0 dev0 (pol0 (KeyboardController False)) ''agent0'')
        = Inr [1/4, - 1/2]
   \<and> fst (TakeoverPolicy_act eng0 dev0 (pol0 (KeyboardController False)) ''agent0'')
        = Inr [1/4, - 1/2]
   \<and> fst (PHIPolicy_act eng0 (dev0\<lparr>raw_action := [1/2, - 1/2]\<rparr>) (1/20)
            (pol0 (KeyboardController False)) ''agent0'') = Inr [1/2, 0]
   \<and> fst (PHIPolicy_act eng0 dev0 (1/2) (pol0 (KeyboardController False)) ''agent0'')
        = Inr [1/4, - 1/2]"
proof -
  let ?p = "pol0 (KeyboardController False)"
  let ?d = "dev0\<lparr>raw_action := [1/2, - 1/2], kb_takeover := True\<rparr>"
  let ?e = "dev0\<lparr>raw_action := [1/2, - 1/2]\<rparr>"
  let ?A = "TakeoverPolicyWithoutBrake_act eng0 ?d ?p ''agent0''"
  let ?B = "TakeoverPolicyWithoutBrake_act eng0 dev0 ?p ''agent0''"
  let ?C = "PHIPolicy_act eng0 ?e (1/20) ?p ''agent0''"
  let ?D = "PHIPolicy_act eng0 dev0 (1/2) ?p ''agent0''"
  have a: "fst ?A = Inr [1/2, 0]" "takeover (snd ?A)" "raw_action ?d ! 1 < 0"
    by (simp_all add: act_defs concrete_defs)
  have b: "fst ?B = Inr [1/4, - 1/2]" "\<not> takeover (snd ?B)"
    by (simp_all add: act_defs concrete_defs)
  have c: "fst ?C = Inr [1/2, 0]" "takeover (snd ?C)" "\<not> discrete_action ?p"
    "raw_action ?e ! 1 < 0"
    by (simp_all add: act_defs concrete_defs)
  have d: "fst ?D = Inr [1/4, - 1/2]" "\<not> takeover (snd ?D)"
    "external_actions eng0 ''agent0'' = Some (Bare [1/4, - 1/2])"
    by (simp_all add: act_defs concrete_defs)
  from b(1) have b': "?B = (Inr [1/4, - 1/2], snd ?B)"
    by (simp add: prod_eq_iff)
  from brake_suppression [of eng0 dev0 ?p "''agent0''" "[1/4, - 1/2]" "snd ?B"] b' b(2)
  have "TakeoverPolicy_act eng0 dev0 ?p ''agent0'' = (Inr [1/4, - 1/2], snd ?B)"
    by simp
  then have "fst (TakeoverPolicy_act eng0 dev0 ?p ''agent0'') = Inr [1/4, - 1/2]"
    by simp
  with a(1) b(1) c(1) d(1) show ?thesis
    by simp
qed

text \<open>
  The claim as stated fails in \<^verbatim>\<open>PHIPolicy.act\<close>: the device gives \<open>[2, -0.5]\<close>
  during a takeover, and the action returned is \<open>[1, 0]\<close>, whose first component is not
  the device's.
\<close>

theorem brake_suppression_counterexample:
  "fst (PHIPolicy_act eng0 (dev0\<lparr>raw_action := [2, - 1/2]\<rparr>) (1/20)
          (pol0 (KeyboardController False)) ''agent0'') = Inr [1, 0]
   \<and> takeover (snd (PHIPolicy_act eng0 (dev0\<lparr>raw_action := [2, - 1/2]\<rparr>) (1/20)
          (pol0 (KeyboardController False)) ''agent0''))
   \<and> [2, - 1/2 :: real] ! 1 < 0
   \<and> [1, 0 :: real] ! 0 \<noteq> [2, - 1/2] ! 0"
  by (simp add: act_defs concrete_defs)

subsection \<open>C6: construction of the controller by name\<close>

text \<open>
  Claim C6 lists six recognised names and says that every other name raises. The list of
  line 29 has a seventh, \<open>xboxcontroller\<close>. As amended: \<^verbatim>\<open>get_controller\<close> looks at
  the lower-cased name only, so the choice is case-insensitive; \<open>keyboard\<close> constructs a
  keyboard controller; \<open>xbox\<close>, \<open>gamepad\<close>, \<open>joystick\<close> and \<open>xboxcontroller\<close>
  construct a gamepad controller; \<open>steering_wheel\<close> and \<open>wheel\<close> construct a steering
  wheel controller; every name that is none of these seven, \<open>joypad2\<close> for one, raises
  \<^verbatim>\<open>ValueError\<close>, whatever the hardware.
\<close>

theorem get_controller_by_name:
  "(lower s = ''keyboard'' \<longrightarrow> get_controller hw s pg = construct hw (KeyboardController pg)) \<and>
   (lower s \<in> {''xbox'', ''gamepad'', ''joystick'', ''xboxcontroller''} \<longrightarrow>
      get_controller hw s pg = construct hw XboxController) \<and>
   (lower s \<in> {''steering_wheel'', ''wheel''} \<longrightarrow>
      get_controller hw s pg = construct hw SteeringWheelController) \<and>
   (lower s \<notin> {''keyboard'', ''xbox'', ''gamepad'', ''joystick'', ''xboxcontroller'',
                 ''steering_wheel'', ''wheel''} \<longrightarrow> get_controller hw s pg = Inl ValueError) \<and>
   (lower s = lower t \<longrightarrow> get_controller hw s pg = get_controller hw t pg)"
  by (auto simp add: get_controller_def Let_def lower_not_xboxController)

text \<open>On a machine where every controller can be instantiated.\<close>

theorem get_controller_by_name_witness:
  "get_controller hw_all ''KeyBoard'' False = Inr (Some (KeyboardController False))
   \<and> get_controller hw_all ''keyboard'' False = Inr (Some (KeyboardController False))
   \<and> get_controller hw_all ''XBOX'' False = Inr (Some XboxController)
   \<and> get_controller hw_all ''Gamepad'' False = Inr (Some XboxController)
   \<and> get_controller hw_all ''joystick'' False = Inr (Some XboxController)
   \<and> get_controller hw_all ''Steering_Wheel'' False = Inr (Some SteeringWheelController)
   \<and> get_controller hw_all ''WHEEL'' False = Inr (Some SteeringWheelController)
   \<and> get_controller hw_all ''joypad2'' False = Inl ValueError"
  using get_controller_by_name [of "''KeyBoard''" hw_all False]
    get_controller_by_name [of "''keyboard''" hw_all False]
    get_controller_by_name [of "''XBOX''" hw_all False]
    get_controller_by_name [of "''Gamepad''" hw_all False]
    get_controller_by_name [of "''joystick''" hw_all False]
    get_controller_by_name [of "''Steering_Wheel''" hw_all False]
    get_controller_by_name [of "''WHEEL''" hw_all False]
    get_controller_by_name [of "''joypad2''" hw_all False]
  by (simp add: lower_examples construct_def hw_all_def)

text \<open>
  The claim as stated fails: \<open>xboxcontroller\<close> is none of the six names of the claim,
  and it constructs a gamepad controller, in lower case and in mixed case.
\<close>

theorem get_controller_by_name_counterexample:
  "''xboxcontroller'' \<notin> {''keyboard'', ''xbox'', ''gamepad'', ''joystick'', ''steering_wheel'', ''wheel''}
   \<and> get_controller hw_all ''xboxcontroller'' False = Inr (Some XboxController)
   \<and> get_controller hw_all ''XboxController'' False = Inr (Some XboxController)"
  by code_simp

subsection \<open>C7: failure to instantiate the device\<close>

text \<open>
  Claim C7 says that when the requested device cannot be instantiated, construction of
  the policy falls back to a keyboard controller and logs a warning. The docstring of
  \<^verbatim>\<open>get_controller\<close> promises \<^verbatim>\<open>None\<close> on error and
  \<^verbatim>\<open>ManualControlPolicy.__init__\<close> tests for it, but the \<^verbatim>\<open>try\<close> around the
  constructors is commented out, so \<^verbatim>\<open>get_controller\<close> never returns \<^verbatim>\<open>None\<close>
  and the constructor's error leaves \<^verbatim>\<open>__init__\<close>. Here manual control is on, the
  controller asked for is \<open>XBOX\<close> and the machine has no gamepad: construction fails
  with the device's error, although the keyboard controller of the fallback could have
  been built.
\<close>

theorem device_failure_propagates:
  "ManualControlPolicy_init (eng0\<lparr>cfg_controller := ''XBOX''\<rparr>) hw_no_joystick = Inl DeviceError
   \<and> TakeoverPolicy_init (eng0\<lparr>cfg_controller := ''XBOX''\<rparr>) hw_no_joystick = Inl DeviceError
   \<and> construct hw_no_joystick (KeyboardController False) = Inr (Some (KeyboardController False))"
  by (simp add: ManualControlPolicy_init_def TakeoverPolicy_init_def get_controller_def
      construct_def hw_no_joystick_def lower_examples eng0_def)


subsection \<open>C8: the action check\<close>

text \<open>
  Claim C8. With \<^verbatim>\<open>action_check\<close> on, \<^verbatim>\<open>PHIPolicy.act\<close> tests the external input
  as it came, before clipping, against the input space; when the input is not in the
  space the call ends in an error, which is its result: nothing in \<^verbatim>\<open>act\<close> catches
  it. The error is the failed assertion whenever the call gets as far as the check, that
  is, unless a takeover tick fails earlier for want of a controller or of a second
  component in the device's list.
\<close>

theorem action_check_rejects:
  assumes "cfg_action_check eng" and "external_actions eng aid = Some ext"
    and "\<not> space_contains (input_space pol) ext"
  shows "(\<exists>e. fst (PHIPolicy_act eng dev rand pol aid) = Inl e)
     \<and> ((controller pol \<noteq> None \<and> 2 \<le> length (raw_action dev)) \<or> \<not> takeover (PHI_pre ext rand pol)
          \<longrightarrow> fst (PHIPolicy_act eng dev rand pol aid) = Inl AssertionError)"
  unfolding PHIPolicy_act_rejects [OF assms]
  by auto


text \<open>
  The external input \<open>[2, 0]\<close> against the box \<open>[-1,1]\<close>: it is outside the space,
  its clipped form \<open>[1, 0]\<close> would be inside, and the call raises.
\<close>

theorem action_check_rejects_witness:
  "\<not> space_contains (Box (- 1) 1 2) (Bare [2, 0])
   \<and> space_contains (Box (- 1) 1 2) (Bare (map (\<lambda>x. clip x (- 1) 1) [2, 0]))
   \<and> fst (PHIPolicy_act (eng0\<lparr>external_actions := [''agent0'' \<mapsto> Bare [2, 0]]\<rparr>) dev0 (1/2)
            (pol0 (KeyboardController False)) ''agent0'') = Inl AssertionError"
proof -
  let ?e = "eng0\<lparr>external_actions := [''agent0'' \<mapsto> Bare [2, 0]]\<rparr>"
  let ?p = "pol0 (KeyboardController False)"
  have h: "cfg_action_check ?e" "external_actions ?e ''agent0'' = Some (Bare [2, 0])"
    "\<not> space_contains (input_space ?p) (Bare [2, 0])"
    by (simp_all add: concrete_defs)
  have d: "controller ?p \<noteq> None" "2 \<le> length (raw_action dev0)"
    by (simp_all add: concrete_defs)
  from action_check_rejects [OF h, of dev0 "1/2"] d
  have "fst (PHIPolicy_act ?e dev0 (1/2) ?p ''agent0'') = Inl AssertionError"
    by simp
  then show ?thesis
    by (simp add: concrete_defs)
qed


subsection \<open>C9: who has authority\<close>

text \<open>
  Claim C9 says that the device action is used and the info flag \<^verbatim>\<open>manual_control\<close>
  set only if manual control is on, the agent is the tracked one and the camera is not
  in bird's-eye view, and that in every other case \<^verbatim>\<open>act\<close> returns the autonomous
  action with the flag false. \<^verbatim>\<open>TakeoverPolicy\<close> has no such flag: it never writes it.
  As amended, with the tracked agent's \<^verbatim>\<open>expert_takeover\<close> read after the toggle key
  has been processed:
  \<^item> when that flag is set, the expert is enabled and the expert returns an action,
    \<^verbatim>\<open>ManualControlPolicy.act\<close> returns the expert's action;
  \<^item> in every other call of \<^verbatim>\<open>ManualControlPolicy.act\<close> that returns an action, either
    the three conditions hold, and the action is the device's and the flag is set to true,
    or they do not all hold, and the action is that of \<^verbatim>\<open>EnvInputPolicy\<close> and the flag
    is set to false;
  \<^item> when a controller exists and the expert does not step in, the call does return: the
    device's action under the three conditions, and otherwise, a tracked agent existing,
    whatever action \<^verbatim>\<open>EnvInputPolicy\<close> returns;
  \<^item> \<^verbatim>\<open>TakeoverPolicy.act\<close> takes over only when manual control is on, the agent is
    the tracked one and the camera says it is not in bird's-eye view, the action then
    being the device's; no call of it changes the flag.
  What the first case does to \<^verbatim>\<open>action_info\<close> is not part of the statement.
\<close>

theorem manual_authority:
  "(controller pol \<noteq> None
      \<and> expert_engaged ((toggle_takeover ^^ others_callbacks dev) eng) \<and> enable_expert pol
      \<and> expert = Inr x
    \<longrightarrow> fst (ManualControlPolicy_act eng dev expert pol aid) = Inr x) \<and>
   (ManualControlPolicy_act eng dev expert pol aid = (Inr a, p', eng')
      \<and> \<not> (expert_engaged ((toggle_takeover ^^ others_callbacks dev) eng) \<and> enable_expert pol
            \<and> \<not> isl expert)
    \<longrightarrow> (authority eng aid \<and> a = raw_action dev \<and> info_manual_control p' = Some True
           \<and> info_action p' = Some a)
        \<or> (\<not> authority eng aid \<and> fst (EnvInputPolicy_act eng pol aid) = Inr a
           \<and> info_manual_control p' = Some False \<and> info_action p' = Some a)) \<and>
   (controller pol \<noteq> None \<and> authority eng aid
      \<and> \<not> (expert_engaged ((toggle_takeover ^^ others_callbacks dev) eng) \<and> enable_expert pol)
    \<longrightarrow> ManualControlPolicy_act eng dev expert pol aid =
          (Inr (raw_action dev),
           pol\<lparr>info_manual_control := Some True, info_action := Some (raw_action dev)\<rparr>,
           (toggle_takeover ^^ others_callbacks dev) eng)) \<and>
   (controller pol \<noteq> None \<and> current_track_agent eng \<noteq> None \<and> \<not> authority eng aid
      \<and> \<not> (expert_engaged ((toggle_takeover ^^ others_callbacks dev) eng) \<and> enable_expert pol)
      \<and> EnvInputPolicy_act eng pol aid = (Inr c, p1)
    \<longrightarrow> ManualControlPolicy_act eng dev expert pol aid =
          (Inr c, p1\<lparr>info_manual_control := Some False, info_action := Some c\<rparr>,
           (toggle_takeover ^^ others_callbacks dev) eng)) \<and>
   (TakeoverPolicy_act eng dev pol aid = (Inr b, q') \<and> takeover q'
    \<longrightarrow> cfg_manual_control eng \<and> Some (get_agent eng aid) = current_track_agent eng
        \<and> main_camera eng = Some False \<and> b = raw_action dev) \<and>
   info_manual_control (snd (TakeoverPolicy_act eng dev pol aid)) = info_manual_control pol"
  using ManualControlPolicy_act_expert [of pol dev eng expert x aid]
    ManualControlPolicy_act_decided [of eng dev expert pol aid a p' eng']
    ManualControlPolicy_act_progress [of pol eng aid dev expert]
    ManualControlPolicy_act_default [of pol eng aid dev c p1 expert]
    takeover_uses_device [of eng dev pol aid b q']
    TakeoverPolicy_act_keeps_flag [of eng dev pol aid]
  by blast

text \<open>
  On the engine \<open>eng0\<close>: the toggle key engages the expert, whose action comes back;
  without it the device has authority; with the camera in bird's-eye view it has not,
  and the external action comes back with the flag false. A keyboard takeover of
  \<^verbatim>\<open>TakeoverPolicy\<close> on \<open>eng0\<close> leaves the flag absent.
\<close>

theorem manual_authority_witness:
  "fst (ManualControlPolicy_act eng0 (dev0\<lparr>others_callbacks := 1\<rparr>) (Inr [0, 1/2])
          (pol0 (KeyboardController False)) ''agent0'') = Inr [0, 1/2]
   \<and> authority eng0 ''agent0''
   \<and> ManualControlPolicy_act eng0 (dev0\<lparr>raw_action := [1/2, 1/4]\<rparr>) (Inr [0, 0])
        (pol0 (KeyboardController False)) ''agent0''
      = (Inr [1/2, 1/4],
         (pol0 (KeyboardController False))\<lparr>info_manual_control := Some True,
            info_action := Some [1/2, 1/4]\<rparr>,
         eng0)
   \<and> \<not> authority (eng0\<lparr>main_camera := Some True\<rparr>) ''agent0''
   \<and> fst (ManualControlPolicy_act (eng0\<lparr>main_camera := Some True\<rparr>) dev0 (Inr [0, 0])
            (pol0 (KeyboardController False)) ''agent0'') = Inr [1/4, - 1/2]
   \<and> info_manual_control (fst (snd (ManualControlPolicy_act (eng0\<lparr>main_camera := Some True\<rparr>)
            dev0 (Inr [0, 0]) (pol0 (KeyboardController False)) ''agent0''))) = Some False
   \<and> fst (TakeoverPolicy_act eng0 (dev0\<lparr>raw_action := [1/2, 1/4], kb_takeover := True\<rparr>)
            (pol0 (KeyboardController False)) ''agent0'') = Inr [1/2, 1/4]
   \<and> main_camera eng0 = Some False
   \<and> info_manual_control (snd (TakeoverPolicy_act eng0
            (dev0\<lparr>raw_action := [1/2, 1/4], kb_takeover := True\<rparr>)
            (pol0 (KeyboardController False)) ''agent0'')) = None"
proof -
  let ?p = "pol0 (KeyboardController False)"
  let ?d = "dev0\<lparr>raw_action := [1/2, 1/4]\<rparr>"
  let ?k = "dev0\<lparr>raw_action := [1/2, 1/4], kb_takeover := True\<rparr>"
  let ?t = "dev0\<lparr>others_callbacks := 1\<rparr>"
  let ?e = "eng0\<lparr>main_camera := Some True\<rparr>"
  let ?q = "?p\<lparr>info_action := Some [1/4, - 1/2]\<rparr>"
  let ?B = "ManualControlPolicy_act ?e dev0 (Inr [0, 0]) ?p ''agent0''"
  let ?T = "TakeoverPolicy_act eng0 ?k ?p ''agent0''"
  have c: "controller ?p \<noteq> None"
    by (simp add: concrete_defs)
  have x: "expert_engaged ((toggle_takeover ^^ others_callbacks ?t) eng0)" "enable_expert ?p"
    by (simp_all add: manual_defs concrete_defs)
  from manual_authority [of ?p ?t eng0 "Inr [0, 1/2]" "[0, 1/2]" "''agent0''"
      "[]" ?p eng0 "[]" ?p "[]" ?p]
  have "controller ?p \<noteq> None
      \<and> expert_engaged ((toggle_takeover ^^ others_callbacks ?t) eng0) \<and> enable_expert ?p
      \<and> Inr [0, 1/2] = (Inr [0, 1/2] :: error + action)
    \<longrightarrow> fst (ManualControlPolicy_act eng0 ?t (Inr [0, 1/2]) ?p ''agent0'') = Inr [0, 1/2]"
    by (rule conjunct1)
  with c x have a1: "fst (ManualControlPolicy_act eng0 ?t (Inr [0, 1/2]) ?p ''agent0'') = Inr [0, 1/2]"
    by simp
  have h: "authority eng0 ''agent0''"
    "\<not> (expert_engaged ((toggle_takeover ^^ others_callbacks ?d) eng0) \<and> enable_expert ?p)"
    by (simp_all add: manual_defs concrete_defs)
  from manual_authority [of ?p ?d eng0 "Inr [0, 0]" "[]" "''agent0''"
      "[]" ?p eng0 "[]" ?p "[]" ?p]
  have "controller ?p \<noteq> None \<and> authority eng0 ''agent0''
      \<and> \<not> (expert_engaged ((toggle_takeover ^^ others_callbacks ?d) eng0) \<and> enable_expert ?p)
    \<longrightarrow> ManualControlPolicy_act eng0 ?d (Inr [0, 0]) ?p ''agent0'' =
          (Inr (raw_action ?d),
           ?p\<lparr>info_manual_control := Some True, info_action := Some (raw_action ?d)\<rparr>,
           (toggle_takeover ^^ others_callbacks ?d) eng0)"
    by (rule conjunct1 [OF conjunct2 [OF conjunct2]])
  with c h have a3: "ManualControlPolicy_act eng0 ?d (Inr [0, 0]) ?p ''agent0''
      = (Inr [1/2, 1/4], ?p\<lparr>info_manual_control := Some True, info_action := Some [1/2, 1/4]\<rparr>, eng0)"
    by (simp add: dev0_def)
  have g: "current_track_agent ?e \<noteq> None" "\<not> authority ?e ''agent0''"
    "\<not> (expert_engaged ((toggle_takeover ^^ others_callbacks dev0) ?e) \<and> enable_expert ?p)"
    "EnvInputPolicy_act ?e ?p ''agent0'' = (Inr [1/4, - 1/2], ?q)"
    by (simp_all add: manual_defs act_defs concrete_defs)
  have B: "fst ?B = Inr [1/4, - 1/2]"
    by (simp add: manual_defs act_defs concrete_defs)
  then have B': "?B = (Inr [1/4, - 1/2], fst (snd ?B), snd (snd ?B))"
    by (simp add: prod_eq_iff)
  note th = manual_authority [of ?p dev0 ?e "Inr [0, 0]" "[]" "''agent0''"
      "[1/4, - 1/2]" "fst (snd ?B)" "snd (snd ?B)" "[1/4, - 1/2]" ?q "[]" ?p]
  from th have "?B = (Inr [1/4, - 1/2], fst (snd ?B), snd (snd ?B))
      \<and> \<not> (expert_engaged ((toggle_takeover ^^ others_callbacks dev0) ?e) \<and> enable_expert ?p
            \<and> \<not> isl (Inr [0, 0] :: error + action))
    \<longrightarrow> (authority ?e ''agent0'' \<and> [1/4, - 1/2] = raw_action dev0
           \<and> info_manual_control (fst (snd ?B)) = Some True
           \<and> info_action (fst (snd ?B)) = Some [1/4, - 1/2])
        \<or> (\<not> authority ?e ''agent0'' \<and> fst (EnvInputPolicy_act ?e ?p ''agent0'') = Inr [1/4, - 1/2]
           \<and> info_manual_control (fst (snd ?B)) = Some False
           \<and> info_action (fst (snd ?B)) = Some [1/4, - 1/2])"
    by (rule conjunct1 [OF conjunct2])
  with B' g(2,3) have a2: "info_manual_control (fst (snd ?B)) = Some False"
    by blast
  from th have "controller ?p \<noteq> None \<and> current_track_agent ?e \<noteq> None \<and> \<not> authority ?e ''agent0''
      \<and> \<not> (expert_engaged ((toggle_takeover ^^ others_callbacks dev0) ?e) \<and> enable_expert ?p)
      \<and> EnvInputPolicy_act ?e ?p ''agent0'' = (Inr [1/4, - 1/2], ?q)
    \<longrightarrow> ?B = (Inr [1/4, - 1/2], ?q\<lparr>info_manual_control := Some False, info_action := Some [1/4, - 1/2]\<rparr>,
           (toggle_takeover ^^ others_callbacks dev0) ?e)"
    by (rule conjunct1 [OF conjunct2 [OF conjunct2 [OF conjunct2]]])
  with c g have a4: "fst ?B = Inr [1/4, - 1/2]"
    by simp
  have t: "fst ?T = Inr [1/2, 1/4]" "takeover (snd ?T)"
    by (simp_all add: act_defs concrete_defs)
  then have T': "?T = (Inr [1/2, 1/4], snd ?T)"
    by (simp add: prod_eq_iff)
  from manual_authority [of ?p ?k eng0 "Inr [0, 0]" "[]" "''agent0''"
      "[]" ?p eng0 "[]" ?p "[1/2, 1/4]" "snd ?T"]
  have "(?T = (Inr [1/2, 1/4], snd ?T) \<and> takeover (snd ?T)
    \<longrightarrow> cfg_manual_control eng0 \<and> Some (get_agent eng0 ''agent0'') = current_track_agent eng0
        \<and> main_camera eng0 = Some False \<and> [1/2, 1/4] = raw_action ?k)
    \<and> info_manual_control (snd ?T) = info_manual_control ?p"
    by (rule conjunct2 [OF conjunct2 [OF conjunct2 [OF conjunct2]]])
  with T' t(2) have a5: "main_camera eng0 = Some False"
    "info_manual_control (snd ?T) = info_manual_control ?p"
    by blast+
  have "info_manual_control ?p = None"
    by (simp add: concrete_defs)
  with a1 a2 a3 a4 a5 h(1) g(2) t(1) show ?thesis
    by simp
qed

text \<open>
  The claim as stated fails for \<^verbatim>\<open>TakeoverPolicy\<close>: with the camera in bird's-eye
  view the conditions do not hold and the autonomous action is returned, but the flag is
  not false: the policy has never written it.
\<close>

theorem manual_authority_counterexample:
  "\<not> authority (eng0\<lparr>main_camera := Some True\<rparr>) ''agent0''
   \<and> fst (TakeoverPolicy_act (eng0\<lparr>main_camera := Some True\<rparr>) dev0
            (pol0 (KeyboardController False)) ''agent0'') = Inr [1/4, - 1/2]
   \<and> info_manual_control (snd (TakeoverPolicy_act (eng0\<lparr>main_camera := Some True\<rparr>) dev0
            (pol0 (KeyboardController False)) ''agent0'')) = None
   \<and> info_manual_control (snd (TakeoverPolicy_act (eng0\<lparr>main_camera := Some True\<rparr>) dev0
            (pol0 (KeyboardController False)) ''agent0'')) \<noteq> Some False"
  by (simp add: manual_defs act_defs concrete_defs)

subsection \<open>C10: what the action check looks at\<close>

text \<open>
  Claim C10. With \<^verbatim>\<open>action_check\<close> on, \<^verbatim>\<open>PHIPolicy.act\<close> checks the external
  input of the tick, not the action it returns. An external input in the dict form fails
  the assertion whatever the vector inside, also when it lies in the space. An external
  input outside the space fails the assertion also on a takeover tick, where the action
  that would have been returned is the device's, whether or not that lies in the space;
  the tick has counted by then. With a valid external input (or the check off) the same tick returns the
  device's action. All this on ticks that get as far as the check.
\<close>

theorem action_check_on_raw_input:
  "(cfg_action_check eng \<and> external_actions eng aid = Some (DictForm v extra)
      \<and> ((controller pol \<noteq> None \<and> 2 \<le> length (raw_action dev))
           \<or> \<not> takeover (PHI_pre (DictForm v extra) rand pol))
    \<longrightarrow> fst (PHIPolicy_act eng dev rand pol aid) = Inl AssertionError) \<and>
   (cfg_action_check eng \<and> external_actions eng aid = Some ext
      \<and> \<not> space_contains (input_space pol) ext \<and> takeover (PHI_pre ext rand pol)
      \<and> controller pol \<noteq> None \<and> 2 \<le> length (raw_action dev)
    \<longrightarrow> PHIPolicy_act eng dev rand pol aid =
          (Inl AssertionError,
           (PHI_pre ext rand pol)\<lparr>current_takeover_last_steps :=
              current_takeover_last_steps (PHI_pre ext rand pol) + 1\<rparr>)) \<and>
   (\<not> (cfg_action_check eng \<and> \<not> space_contains (input_space pol) ext)
      \<and> external_actions eng aid = Some ext
      \<and> takeover (PHI_pre ext rand pol)
      \<and> controller pol \<noteq> None \<and> 2 \<le> length (raw_action dev) \<and> \<not> discrete_action pol
    \<longrightarrow> fst (PHIPolicy_act eng dev rand pol aid) =
          Inr (map (\<lambda>x. clip x (- 1) 1)
                 (if raw_action dev ! 1 < 0 then (raw_action dev)[1 := 0] else raw_action dev)))"
proof (intro conjI impI)
  assume h: "cfg_action_check eng \<and> external_actions eng aid = Some (DictForm v extra)
      \<and> ((controller pol \<noteq> None \<and> 2 \<le> length (raw_action dev))
           \<or> \<not> takeover (PHI_pre (DictForm v extra) rand pol))"
  then have "PHIPolicy_act eng dev rand pol aid =
     (if takeover (PHI_pre (DictForm v extra) rand pol) then
        (if controller pol = None then (Inl AttributeError, PHI_pre (DictForm v extra) rand pol)
         else if length (raw_action dev) < 2 then (Inl IndexError, PHI_pre (DictForm v extra) rand pol)
         else (Inl AssertionError,
               (PHI_pre (DictForm v extra) rand pol)\<lparr>current_takeover_last_steps :=
                  current_takeover_last_steps (PHI_pre (DictForm v extra) rand pol) + 1\<rparr>))
      else (Inl AssertionError, PHI_pre (DictForm v extra) rand pol))"
    by (intro PHIPolicy_act_rejects) simp_all
  with h show "fst (PHIPolicy_act eng dev rand pol aid) = Inl AssertionError"
    by auto
next
  assume h: "cfg_action_check eng \<and> external_actions eng aid = Some ext
      \<and> \<not> space_contains (input_space pol) ext \<and> takeover (PHI_pre ext rand pol)
      \<and> controller pol \<noteq> None \<and> 2 \<le> length (raw_action dev)"
  then have "cfg_action_check eng" "external_actions eng aid = Some ext"
    "\<not> space_contains (input_space pol) ext"
    by simp_all
  from PHIPolicy_act_rejects [OF this, of dev rand] h
  show "PHIPolicy_act eng dev rand pol aid =
          (Inl AssertionError,
           (PHI_pre ext rand pol)\<lparr>current_takeover_last_steps :=
              current_takeover_last_steps (PHI_pre ext rand pol) + 1\<rparr>)"
    by auto
next
  assume h: "\<not> (cfg_action_check eng \<and> \<not> space_contains (input_space pol) ext)
      \<and> external_actions eng aid = Some ext
      \<and> takeover (PHI_pre ext rand pol)
      \<and> controller pol \<noteq> None \<and> 2 \<le> length (raw_action dev) \<and> \<not> discrete_action pol"
  then have e: "external_actions eng aid = Some ext" and t: "takeover (PHI_pre ext rand pol)"
    by simp_all
  from h show "fst (PHIPolicy_act eng dev rand pol aid) =
          Inr (map (\<lambda>x. clip x (- 1) 1)
                 (if raw_action dev ! 1 < 0 then (raw_action dev)[1 := 0] else raw_action dev))"
    unfolding PHIPolicy_act_manual [OF e t]
    by (auto simp add: finish_act_def PHI_pre_fields Let_def)
qed


text \<open>
  A dict input whose vector \<open>[0.25, -0.5]\<close> is in the box; the input \<open>[2, 0]\<close> on a
  tick where the draw 0.05 starts a takeover and the device gives \<open>[0.5, 0.5]\<close>; and
  the same tick with the input \<open>[0.25, -0.5]\<close>.
\<close>

theorem action_check_on_raw_input_witness:
  "input_space (pol0 XboxController) [1/4, - 1/2]
   \<and> fst (PHIPolicy_act (eng0\<lparr>external_actions := [''agent0'' \<mapsto> DictForm [1/4, - 1/2] False]\<rparr>)
            dev0 (1/2) (pol0 XboxController) ''agent0'') = Inl AssertionError
   \<and> input_space (pol0 XboxController) (raw_action (dev0\<lparr>raw_action := [1/2, 1/2]\<rparr>))
   \<and> fst (PHIPolicy_act (eng0\<lparr>external_actions := [''agent0'' \<mapsto> Bare [2, 0]]\<rparr>)
            (dev0\<lparr>raw_action := [1/2, 1/2]\<rparr>) (1/20) (pol0 XboxController) ''agent0'')
        = Inl AssertionError
   \<and> fst (PHIPolicy_act eng0 (dev0\<lparr>raw_action := [1/2, 1/2]\<rparr>) (1/20)
            (pol0 XboxController) ''agent0'') = Inr [1/2, 1/2]"
proof -
  let ?p = "pol0 XboxController"
  let ?e1 = "eng0\<lparr>external_actions := [''agent0'' \<mapsto> DictForm [1/4, - 1/2] False]\<rparr>"
  let ?e2 = "eng0\<lparr>external_actions := [''agent0'' \<mapsto> Bare [2, 0]]\<rparr>"
  let ?d = "dev0\<lparr>raw_action := [1/2, 1/2]\<rparr>"
  have pre: "PHI_pre ext r ?p = ?p\<lparr>takeover := (extra_flag ext \<or> r < 0.1)\<rparr>" for ext r
    by (simp add: PHI_pre_eq PHI_expire_def concrete_defs)
  have h1: "cfg_action_check ?e1"
    "external_actions ?e1 ''agent0'' = Some (DictForm [1/4, - 1/2] False)"
    "input_space ?p [1/4, - 1/2]"
    "\<not> takeover (PHI_pre (DictForm [1/4, - 1/2] False) (1/2) ?p)"
    unfolding pre by (simp_all add: concrete_defs)
  have h2: "cfg_action_check ?e2" "external_actions ?e2 ''agent0'' = Some (Bare [2, 0])"
    "\<not> space_contains (input_space ?p) (Bare [2, 0])"
    "takeover (PHI_pre (Bare [2, 0]) (1/20) ?p)"
    "controller ?p \<noteq> None" "2 \<le> length (raw_action ?d)"
    "input_space ?p (if raw_action ?d ! 1 < 0 then (raw_action ?d)[1 := 0] else raw_action ?d)"
    unfolding pre by (simp_all add: concrete_defs)
  have h3: "\<not> (cfg_action_check eng0 \<and> \<not> space_contains (input_space ?p) (Bare [1/4, - 1/2]))"
    "external_actions eng0 ''agent0'' = Some (Bare [1/4, - 1/2])"
    "takeover (PHI_pre (Bare [1/4, - 1/2]) (1/20) ?p)" "\<not> discrete_action ?p"
    unfolding pre by (simp_all add: concrete_defs)
  from action_check_on_raw_input [of ?e1 "''agent0''" "[1/4, - 1/2]" False ?p dev0 "1/2"] h1
  have a: "fst (PHIPolicy_act ?e1 dev0 (1/2) ?p ''agent0'') = Inl AssertionError"
    by simp
  from action_check_on_raw_input [of ?e2 "''agent0''" _ _ ?p ?d "1/20" "Bare [2, 0]"] h2
  have b: "fst (PHIPolicy_act ?e2 ?d (1/20) ?p ''agent0'') = Inl AssertionError"
    by simp
  from action_check_on_raw_input [of eng0 "''agent0''" _ _ ?p ?d "1/20" "Bare [1/4, - 1/2]"] h2(5,6) h3
  have c: "fst (PHIPolicy_act eng0 ?d (1/20) ?p ''agent0'') = Inr [1/2, 1/2]"
    by (simp add: clip_def dev0_def)
  from a b c h1(3) h2(7) show ?thesis
    by (simp add: dev0_def)
qed


end
